theory Spec2Isabelle
  imports Main "HOL-Library.Word"
begin

section \<open>The escrow contract InvisibleTransfer.sol\<close>

text \<open>
  The embedding follows \<^verbatim>\<open>contracts/InvisibleTransfer.sol\<close> statement by statement.
  Solidity values keep their widths: \<^verbatim>\<open>address\<close> is a 160-bit word, \<^verbatim>\<open>bytes32\<close> and
  \<^verbatim>\<open>uint256\<close> are 256-bit words. Solidity 0.8 arithmetic is checked: an overflow or an
  underflow reverts with a panic, which is the error \<open>Panic\<close> here. A \<^verbatim>\<open>mapping\<close> is a
  total function (every key reads as the zero value until it is written), a dynamic
  array is a list. A function of the contract takes the call context, the token
  contracts and the storage, and returns either the error it reverts with or the token
  contracts and the storage after the call. Events and the ether sent with a call are
  not modelled. The tokens are first taken to be \<^verbatim>\<open>MockERC20\<close>, which only keeps its
  balances; a token that calls the contract back while it is called is modelled for
  \<^verbatim>\<open>publishHiddenTransfer\<close>, the one function that writes its record after its
  external calls.
\<close>

type_synonym address = "160 word"
type_synonym bytes32 = "256 word"
type_synonym uint256 = "256 word"

text \<open>
  One constructor per revert reason. The names are the ones of the specification where
  it has one; the revert string of the source is given beside each.
\<close>

datatype error =
    ZeroAmount                 \<comment> \<open>"Amount must be positive"\<close>
  | AlreadyExists              \<comment> \<open>"Hash already exists"\<close>
  | InvalidToken               \<comment> \<open>"Invalid token address"\<close>
  | TokenTransferFailed        \<comment> \<open>"Token transfer failed"\<close>
  | FeeTransferFailed          \<comment> \<open>"Fee transfer failed"\<close>
  | NotFound                   \<comment> \<open>"Transfer does not exist"\<close>
  | AlreadyClaimed             \<comment> \<open>"Already claimed"\<close>
  | NoAmount                   \<comment> \<open>"No amount to claim"\<close>
  | ClaimTransferFailed        \<comment> \<open>"Claim transfer failed"\<close>
  | NotSender                  \<comment> \<open>"Not the sender"\<close>
  | TooEarly                   \<comment> \<open>"Too early to cancel"\<close>
  | CancelTransferFailed       \<comment> \<open>"Cancel transfer failed"\<close>
  | NotOwner                   \<comment> \<open>"Not owner"\<close>
  | FeeTooHigh                 \<comment> \<open>"Fee too high"\<close>
  | InvalidAddress             \<comment> \<open>"Invalid address"\<close>
  | EmergencyWithdrawalFailed  \<comment> \<open>"Emergency withdrawal failed"\<close>
  | InsufficientBalance        \<comment> \<open>"Insufficient balance", raised by the token\<close>
  | InsufficientAllowance      \<comment> \<open>"Insufficient allowance", raised by the token\<close>
  | CallToNonContract          \<comment> \<open>a call to an address that holds no code\<close>
  | Panic                      \<comment> \<open>checked arithmetic: overflow or underflow\<close>

subsection \<open>Reverting\<close>

text \<open>
  A statement either reverts the call with an error or hands a value to the statements
  after it: \<open>and_then\<close> sequences two of them, \<open>require\<close> is Solidity's.
\<close>

definition and_then :: "error + 'a \<Rightarrow> ('a \<Rightarrow> error + 'b) \<Rightarrow> error + 'b" where
  "and_then r f = (case r of Inl e \<Rightarrow> Inl e | Inr x \<Rightarrow> f x)"

definition require :: "bool \<Rightarrow> error \<Rightarrow> error + unit" where
  "require b e = (if b then Inr () else Inl e)"

subsection \<open>Checked arithmetic of Solidity 0.8\<close>

definition checked_add :: "uint256 \<Rightarrow> uint256 \<Rightarrow> error + uint256" where
  "checked_add a b = (if unat a + unat b < 2 ^ 256 then Inr (a + b) else Inl Panic)"

definition checked_sub :: "uint256 \<Rightarrow> uint256 \<Rightarrow> error + uint256" where
  "checked_sub a b = (if unat b \<le> unat a then Inr (a - b) else Inl Panic)"

definition checked_mul :: "uint256 \<Rightarrow> uint256 \<Rightarrow> error + uint256" where
  "checked_mul a b = (if unat a * unat b < 2 ^ 256 then Inr (a * b) else Inl Panic)"

subsection \<open>The token: MockERC20 of the test suite\<close>

text \<open>
  The contract talks to its tokens through the interface \<^verbatim>\<open>IERC20\<close> only. The one
  token of the repository is \<^verbatim>\<open>MockERC20\<close> in \<^verbatim>\<open>contracts/test/InvisibleTransfer.t.sol\<close>,
  which updates its own balances and calls nobody. The first argument of each function
  is the \<^verbatim>\<open>msg.sender\<close> of the call to the token.
\<close>

record MockERC20 =
  balanceOf :: "address \<Rightarrow> uint256"
  allowance :: "address \<Rightarrow> address \<Rightarrow> uint256"

definition mock_transfer ::
  "address \<Rightarrow> address \<Rightarrow> uint256 \<Rightarrow> MockERC20 \<Rightarrow> error + MockERC20 \<times> bool" where
  "mock_transfer caller to amt t =
     and_then (require (amt \<le> balanceOf t caller) InsufficientBalance) (\<lambda>_.
     and_then (checked_sub (balanceOf t caller) amt) (\<lambda>v1.
     let b1 = (balanceOf t)(caller := v1) in
     and_then (checked_add (b1 to) amt) (\<lambda>v2.
     Inr (t\<lparr>balanceOf := b1(to := v2)\<rparr>, True))))"

definition mock_transferFrom ::
  "address \<Rightarrow> address \<Rightarrow> address \<Rightarrow> uint256 \<Rightarrow> MockERC20 \<Rightarrow> error + MockERC20 \<times> bool" where
  "mock_transferFrom caller from to amt t =
     and_then (require (amt \<le> balanceOf t from) InsufficientBalance) (\<lambda>_.
     and_then (require (amt \<le> allowance t from caller) InsufficientAllowance) (\<lambda>_.
     and_then (checked_sub (balanceOf t from) amt) (\<lambda>v1.
     let b1 = (balanceOf t)(from := v1) in
     and_then (checked_add (b1 to) amt) (\<lambda>v2.
     and_then (checked_sub (allowance t from caller) amt) (\<lambda>v3.
     Inr (t\<lparr>balanceOf := b1(to := v2),
            allowance := (allowance t)(from := (allowance t from)(caller := v3))\<rparr>,
          True))))))"

text \<open>
  The token contracts of the chain, by address. A high-level call to an address without
  code reverts.
\<close>

type_synonym tokens = "address \<Rightarrow> MockERC20 option"

definition call_transfer ::
  "tokens \<Rightarrow> address \<Rightarrow> address \<Rightarrow> address \<Rightarrow> uint256 \<Rightarrow> error + tokens \<times> bool" where
  "call_transfer tk tkn caller to amt =
     (case tk tkn of
        None \<Rightarrow> Inl CallToNonContract
      | Some t \<Rightarrow>
          and_then (mock_transfer caller to amt t) (\<lambda>(t', ok).
          Inr (tk(tkn \<mapsto> t'), ok)))"

definition call_transferFrom ::
  "tokens \<Rightarrow> address \<Rightarrow> address \<Rightarrow> address \<Rightarrow> address \<Rightarrow> uint256 \<Rightarrow> error + tokens \<times> bool" where
  "call_transferFrom tk tkn caller from to amt =
     (case tk tkn of
        None \<Rightarrow> Inl CallToNonContract
      | Some t \<Rightarrow>
          and_then (mock_transferFrom caller from to amt t) (\<lambda>(t', ok).
          Inr (tk(tkn \<mapsto> t'), ok)))"

text \<open>The balance of an account in a token, as \<^verbatim>\<open>IERC20(token).balanceOf(account)\<close> reads it.\<close>

definition balance :: "tokens \<Rightarrow> address \<Rightarrow> address \<Rightarrow> nat" where
  "balance tk tkn a = (case tk tkn of None \<Rightarrow> 0 | Some t \<Rightarrow> unat (balanceOf t a))"

subsection \<open>Storage and call context\<close>

record HiddenTransfer =
  sender :: address
  token :: address
  amount :: uint256
  timestamp :: uint256
  claimed :: bool

record InvisibleTransfer =
  hiddenTransfers :: "bytes32 \<Rightarrow> HiddenTransfer"
  userSentTransfers :: "address \<Rightarrow> bytes32 list"
  userReceivedTransfers :: "address \<Rightarrow> bytes32 list"
  owner :: address
  totalTransfers :: uint256
  totalClaimed :: uint256
  platformFee :: uint256
  feeCollector :: address

text \<open>
  What a call sees of its transaction: \<^verbatim>\<open>msg.sender\<close>, \<^verbatim>\<open>block.timestamp\<close> and
  \<^verbatim>\<open>address(this)\<close>.
\<close>

record ctx =
  msg_sender :: address
  block_timestamp :: uint256
  this :: address

text \<open>The zero value of the struct, which every unwritten key of the mapping holds.\<close>

definition zero_transfer :: HiddenTransfer where
  "zero_transfer = \<lparr>sender = 0, token = 0, amount = 0, timestamp = 0, claimed = False\<rparr>"

definition constructor :: "ctx \<Rightarrow> uint256 \<Rightarrow> InvisibleTransfer" where
  "constructor c fee =
     \<lparr>hiddenTransfers = (\<lambda>_. zero_transfer),
      userSentTransfers = (\<lambda>_. []),
      userReceivedTransfers = (\<lambda>_. []),
      owner = msg_sender c,
      totalTransfers = 0,
      totalClaimed = 0,
      platformFee = fee,
      feeCollector = msg_sender c\<rparr>"

subsection \<open>publish, claim, cancel\<close>

text \<open>\<^verbatim>\<open>7 days\<close> in seconds.\<close>

definition seven_days :: uint256 where
  "seven_days = 604800"

definition publishHiddenTransfer ::
  "ctx \<Rightarrow> tokens \<Rightarrow> InvisibleTransfer \<Rightarrow> bytes32 \<Rightarrow> address \<Rightarrow> uint256
     \<Rightarrow> error + tokens \<times> InvisibleTransfer" where
  "publishHiddenTransfer c tk s h tkn amt =
     and_then (require (0 < amt) ZeroAmount) (\<lambda>_.
     and_then (require (timestamp (hiddenTransfers s h) = 0) AlreadyExists) (\<lambda>_.
     and_then (require (tkn \<noteq> 0) InvalidToken) (\<lambda>_.
     and_then (checked_mul amt (platformFee s)) (\<lambda>p.
     let fee = p div 10000 in
     and_then (checked_sub amt fee) (\<lambda>amountAfterFee.
     and_then (call_transferFrom tk tkn (this c) (msg_sender c) (this c) amt) (\<lambda>(tk1, ok1).
     and_then (require ok1 TokenTransferFailed) (\<lambda>_.
     and_then (if 0 < fee
               then and_then (call_transfer tk1 tkn (this c) (feeCollector s) fee) (\<lambda>(tk2, ok2).
                    and_then (require ok2 FeeTransferFailed) (\<lambda>_.
                    Inr tk2))
               else Inr tk1) (\<lambda>tk2.
     and_then (checked_add (totalTransfers s) 1) (\<lambda>n.
     Inr (tk2,
          s\<lparr>hiddenTransfers := (hiddenTransfers s)
               (h := \<lparr>sender = msg_sender c, token = tkn, amount = amountAfterFee,
                      timestamp = block_timestamp c, claimed = False\<rparr>),
            userSentTransfers := (userSentTransfers s)
               (msg_sender c := userSentTransfers s (msg_sender c) @ [h]),
            totalTransfers := n\<rparr>))))))))))"

definition claimHiddenTransfer ::
  "ctx \<Rightarrow> tokens \<Rightarrow> InvisibleTransfer \<Rightarrow> bytes32 \<Rightarrow> error + tokens \<times> InvisibleTransfer" where
  "claimHiddenTransfer c tk s h =
     (let transfer = hiddenTransfers s h in
      and_then (require (0 < timestamp transfer) NotFound) (\<lambda>_.
      and_then (require (\<not> claimed transfer) AlreadyClaimed) (\<lambda>_.
      and_then (require (0 < amount transfer) NoAmount) (\<lambda>_.
      and_then (checked_add (totalClaimed s) 1) (\<lambda>n.
      let s1 = s\<lparr>hiddenTransfers := (hiddenTransfers s)(h := transfer\<lparr>claimed := True\<rparr>),
                 totalClaimed := n,
                 userReceivedTransfers := (userReceivedTransfers s)
                    (msg_sender c := userReceivedTransfers s (msg_sender c) @ [h])\<rparr> in
      and_then (call_transfer tk (token transfer) (this c) (msg_sender c) (amount transfer))
        (\<lambda>(tk1, ok).
      and_then (require ok ClaimTransferFailed) (\<lambda>_.
      Inr (tk1, s1))))))))"

definition cancelHiddenTransfer ::
  "ctx \<Rightarrow> tokens \<Rightarrow> InvisibleTransfer \<Rightarrow> bytes32 \<Rightarrow> error + tokens \<times> InvisibleTransfer" where
  "cancelHiddenTransfer c tk s h =
     (let transfer = hiddenTransfers s h in
      and_then (require (sender transfer = msg_sender c) NotSender) (\<lambda>_.
      and_then (require (\<not> claimed transfer) AlreadyClaimed) (\<lambda>_.
      and_then (checked_add (timestamp transfer) seven_days) (\<lambda>deadline.
      and_then (require (deadline \<le> block_timestamp c) TooEarly) (\<lambda>_.
      let amountToReturn = amount transfer;
          tokenToReturn = token transfer;
          s1 = s\<lparr>hiddenTransfers := (hiddenTransfers s)(h := transfer\<lparr>claimed := True\<rparr>)\<rparr> in
      and_then (call_transfer tk tokenToReturn (this c) (msg_sender c) amountToReturn)
        (\<lambda>(tk1, ok).
      and_then (require ok CancelTransferFailed) (\<lambda>_.
      Inr (tk1, s1))))))))"

subsection \<open>Reads and administration\<close>

definition getHiddenTransfer ::
  "InvisibleTransfer \<Rightarrow> bytes32 \<Rightarrow> address \<times> address \<times> uint256 \<times> uint256 \<times> bool" where
  "getHiddenTransfer s h =
     (let transfer = hiddenTransfers s h in
      (sender transfer, token transfer, amount transfer, timestamp transfer, claimed transfer))"

definition getStats :: "InvisibleTransfer \<Rightarrow> error + uint256 \<times> uint256 \<times> uint256" where
  "getStats s =
     and_then (checked_sub (totalTransfers s) (totalClaimed s)) (\<lambda>pending.
     Inr (totalTransfers s, totalClaimed s, pending))"

text \<open>The modifier \<^verbatim>\<open>onlyOwner\<close>.\<close>

definition onlyOwner :: "ctx \<Rightarrow> InvisibleTransfer \<Rightarrow> error + unit" where
  "onlyOwner c s = require (msg_sender c = owner s) NotOwner"

definition updatePlatformFee ::
  "ctx \<Rightarrow> InvisibleTransfer \<Rightarrow> uint256 \<Rightarrow> error + InvisibleTransfer" where
  "updatePlatformFee c s newFee =
     and_then (onlyOwner c s) (\<lambda>_.
     and_then (require (newFee \<le> 500) FeeTooHigh) (\<lambda>_.
     Inr (s\<lparr>platformFee := newFee\<rparr>)))"

definition updateFeeCollector ::
  "ctx \<Rightarrow> InvisibleTransfer \<Rightarrow> address \<Rightarrow> error + InvisibleTransfer" where
  "updateFeeCollector c s newCollector =
     and_then (onlyOwner c s) (\<lambda>_.
     and_then (require (newCollector \<noteq> 0) InvalidAddress) (\<lambda>_.
     Inr (s\<lparr>feeCollector := newCollector\<rparr>)))"

definition emergencyWithdraw ::
  "ctx \<Rightarrow> tokens \<Rightarrow> InvisibleTransfer \<Rightarrow> address \<Rightarrow> uint256
     \<Rightarrow> error + tokens \<times> InvisibleTransfer" where
  "emergencyWithdraw c tk s tkn amt =
     and_then (onlyOwner c s) (\<lambda>_.
     and_then (call_transfer tk tkn (this c) (owner s) amt) (\<lambda>(tk1, ok).
     and_then (require ok EmergencyWithdrawalFailed) (\<lambda>_.
     Inr (tk1, s))))"

subsection \<open>Transactions and reachable storage\<close>

text \<open>The state-changing functions of the contract's interface, with their arguments.\<close>

datatype call =
    Publish bytes32 address uint256
  | Claim bytes32
  | Cancel bytes32
  | UpdatePlatformFee uint256
  | UpdateFeeCollector address
  | EmergencyWithdraw address uint256

fun exec :: "ctx \<Rightarrow> tokens \<Rightarrow> InvisibleTransfer \<Rightarrow> call \<Rightarrow> error + tokens \<times> InvisibleTransfer" where
  "exec c tk s (Publish h tkn amt) = publishHiddenTransfer c tk s h tkn amt"
| "exec c tk s (Claim h) = claimHiddenTransfer c tk s h"
| "exec c tk s (Cancel h) = cancelHiddenTransfer c tk s h"
| "exec c tk s (UpdatePlatformFee newFee) =
     and_then (updatePlatformFee c s newFee) (\<lambda>s'. Inr (tk, s'))"
| "exec c tk s (UpdateFeeCollector a) =
     and_then (updateFeeCollector c s a) (\<lambda>s'. Inr (tk, s'))"
| "exec c tk s (EmergencyWithdraw tkn amt) = emergencyWithdraw c tk s tkn amt"

text \<open>
  A transaction that reverts leaves every storage slot and every token balance as it
  was: \<open>transact\<close> gives the state after the transaction, and the error if it reverted.
\<close>

definition transact ::
  "ctx \<Rightarrow> tokens \<Rightarrow> InvisibleTransfer \<Rightarrow> call \<Rightarrow> (tokens \<times> InvisibleTransfer) \<times> error option" where
  "transact c tk s x =
     (case exec c tk s x of
        Inl e \<Rightarrow> ((tk, s), Some e)
      | Inr r \<Rightarrow> (r, None))"

text \<open>
  What the chain guarantees of a call context: no transaction comes from the zero
  address, the contract has no code that calls itself, and a block's timestamp is a
  positive number of seconds that fits 64 bits.
\<close>

definition valid_ctx :: "ctx \<Rightarrow> bool" where
  "valid_ctx c \<longleftrightarrow>
     msg_sender c \<noteq> 0 \<and> msg_sender c \<noteq> this c \<and>
     0 < block_timestamp c \<and> unat (block_timestamp c) < 2 ^ 64"

text \<open>
  The storages the contract can be in when its tokens call nobody: the one the
  constructor leaves, and the one after any successful call made in a valid context,
  whatever the tokens hold at that moment.
\<close>

inductive reachable :: "InvisibleTransfer \<Rightarrow> bool" where
  init: "valid_ctx c \<Longrightarrow> reachable (constructor c fee)"
| step: "reachable s \<Longrightarrow> valid_ctx c \<Longrightarrow> exec c tk s x = Inr (tk', s') \<Longrightarrow> reachable s'"

text \<open>
  A sequence of transactions, each with its context and with the token contracts as they
  are when it is mined (accounts other than the contract move tokens between its calls).
  A transaction that reverts changes nothing.
\<close>

fun run :: "InvisibleTransfer \<Rightarrow> (ctx \<times> tokens \<times> call) list \<Rightarrow> InvisibleTransfer" where
  "run s [] = s"
| "run s ((c, tk, x) # xs) = run (snd (fst (transact c tk s x))) xs"

subsection \<open>A token that calls back\<close>

text \<open>
  The token of \<^verbatim>\<open>publishHiddenTransfer\<close> is an address its caller chooses, and the
  contract has no reentrancy guard: the code at that address may call the contract's
  functions before it returns. \<^verbatim>\<open>publishHiddenTransfer\<close> checks the identifier (line 70),
  then calls the token (lines 78 to 89), and only then writes the record (lines 92 to
  102), so what the token does in between is seen by the write. Here the storage goes
  through the external call: \<open>hooks\<close> gives, for each token address, what its code does
  to the tokens and the storage when \<^verbatim>\<open>transferFrom\<close> or \<^verbatim>\<open>transfer\<close> is entered, as
  the caller \<^verbatim>\<open>msg.sender = token\<close>; its own bookkeeping follows, as \<^verbatim>\<open>MockERC20\<close>
  does it. With \<open>no_hooks\<close> the token calls nobody.
\<close>

type_synonym chain = "tokens \<times> InvisibleTransfer"
type_synonym callback = "ctx \<Rightarrow> chain \<Rightarrow> error + chain"

record hooks =
  on_transferFrom :: "address \<Rightarrow> callback"
  on_transfer :: "address \<Rightarrow> callback"

definition no_hooks :: hooks where
  "no_hooks = \<lparr>on_transferFrom = (\<lambda>_ _ w. Inr w), on_transfer = (\<lambda>_ _ w. Inr w)\<rparr>"

definition reentrant_transferFrom ::
  "hooks \<Rightarrow> ctx \<Rightarrow> chain \<Rightarrow> address \<Rightarrow> address \<Rightarrow> address \<Rightarrow> uint256 \<Rightarrow> error + chain \<times> bool" where
  "reentrant_transferFrom k c w tkn from to amt =
     (case fst w tkn of
        None \<Rightarrow> Inl CallToNonContract
      | Some _ \<Rightarrow>
          and_then (on_transferFrom k tkn (c\<lparr>msg_sender := tkn\<rparr>) w) (\<lambda>(tk1, s1).
          and_then (call_transferFrom tk1 tkn (this c) from to amt) (\<lambda>(tk2, ok).
          Inr ((tk2, s1), ok))))"

definition reentrant_transfer ::
  "hooks \<Rightarrow> ctx \<Rightarrow> chain \<Rightarrow> address \<Rightarrow> address \<Rightarrow> uint256 \<Rightarrow> error + chain \<times> bool" where
  "reentrant_transfer k c w tkn to amt =
     (case fst w tkn of
        None \<Rightarrow> Inl CallToNonContract
      | Some _ \<Rightarrow>
          and_then (on_transfer k tkn (c\<lparr>msg_sender := tkn\<rparr>) w) (\<lambda>(tk1, s1).
          and_then (call_transfer tk1 tkn (this c) to amt) (\<lambda>(tk2, ok).
          Inr ((tk2, s1), ok))))"

text \<open>
  \<^verbatim>\<open>publishHiddenTransfer\<close> again, statement by statement, with the storage as the
  external calls leave it: the fee is computed from the storage before the calls, the
  fee collector is read after the first call, the record, the sender's list and the
  counter are written to the storage after the last.
\<close>

definition publishHiddenTransfer_reentrant ::
  "hooks \<Rightarrow> ctx \<Rightarrow> chain \<Rightarrow> bytes32 \<Rightarrow> address \<Rightarrow> uint256 \<Rightarrow> error + chain" where
  "publishHiddenTransfer_reentrant k c w h tkn amt =
     and_then (require (0 < amt) ZeroAmount) (\<lambda>_.
     and_then (require (timestamp (hiddenTransfers (snd w) h) = 0) AlreadyExists) (\<lambda>_.
     and_then (require (tkn \<noteq> 0) InvalidToken) (\<lambda>_.
     and_then (checked_mul amt (platformFee (snd w))) (\<lambda>p.
     let fee = p div 10000 in
     and_then (checked_sub amt fee) (\<lambda>amountAfterFee.
     and_then (reentrant_transferFrom k c w tkn (msg_sender c) (this c) amt) (\<lambda>(w1, ok1).
     and_then (require ok1 TokenTransferFailed) (\<lambda>_.
     and_then (if 0 < fee
               then and_then (reentrant_transfer k c w1 tkn (feeCollector (snd w1)) fee)
                      (\<lambda>(w2, ok2).
                    and_then (require ok2 FeeTransferFailed) (\<lambda>_.
                    Inr w2))
               else Inr w1) (\<lambda>(tk2, s2).
     and_then (checked_add (totalTransfers s2) 1) (\<lambda>n.
     Inr (tk2,
          s2\<lparr>hiddenTransfers := (hiddenTransfers s2)
                (h := \<lparr>sender = msg_sender c, token = tkn, amount = amountAfterFee,
                       timestamp = block_timestamp c, claimed = False\<rparr>),
             userSentTransfers := (userSentTransfers s2)
                (msg_sender c := userSentTransfers s2 (msg_sender c) @ [h]),
             totalTransfers := n\<rparr>))))))))))"

subsection \<open>Scenarios\<close>

text \<open>
  The accounts of the test suite: \<open>alice\<close> holds tokens and has approved the contract,
  \<open>bob\<close> holds none. The deployer \<open>admin\<close> is the owner and the first fee collector;
  the contract is deployed with a fee of 50 basis points, as the deployment script does.
\<close>

definition admin :: address where "admin = 9"
definition alice :: address where "alice = 1"
definition bob :: address where "bob = 2"
definition escrow :: address where "escrow = 256"
definition usdc :: address where "usdc = 16"

definition call_by :: "address \<Rightarrow> uint256 \<Rightarrow> ctx" where
  "call_by a t = \<lparr>msg_sender = a, block_timestamp = t, this = escrow\<rparr>"

definition usdc0 :: MockERC20 where
  "usdc0 = \<lparr>balanceOf = (\<lambda>_. 0)(alice := 1000000, admin := 500000),
            allowance = (\<lambda>_ _. 0)(alice := (\<lambda>_. 0)(escrow := 1000000),
                                   admin := (\<lambda>_. 0)(escrow := 500000))\<rparr>"

definition tokens0 :: tokens where
  "tokens0 = Map.empty(usdc \<mapsto> usdc0)"

definition deployed :: InvisibleTransfer where
  "deployed = constructor (call_by admin 1000) 50"

text \<open>Alice publishes 10000 units under the identifier 7.\<close>

definition published :: "tokens \<times> InvisibleTransfer" where
  "published = fst (transact (call_by alice 2000) tokens0 deployed (Publish 7 usdc 10000))"

text \<open>Bob claims it.\<close>

definition claimed_by_bob :: "tokens \<times> InvisibleTransfer" where
  "claimed_by_bob =
     fst (transact (call_by bob 3000) (fst published) (snd published) (Claim 7))"

text \<open>Or nobody claims and Alice cancels at exactly seven days.\<close>

definition cancelled :: "tokens \<times> InvisibleTransfer" where
  "cancelled =
     fst (transact (call_by alice 606800) (fst published) (snd published) (Cancel 7))"

text \<open>The deployer, who is the fee collector, publishes 10000 units under the identifier 8.\<close>

definition published_by_admin :: "tokens \<times> InvisibleTransfer" where
  "published_by_admin =
     fst (transact (call_by admin 2000) tokens0 deployed (Publish 8 usdc 10000))"

text \<open>Or the owner withdraws the escrowed tokens before anybody claims.\<close>

definition drained :: "tokens \<times> InvisibleTransfer" where
  "drained =
     fst (transact (call_by admin 2500) (fst published) (snd published)
            (EmergencyWithdraw usdc 9950))"

text \<open>A deployment with a fee of 10000 basis points, and a publish of one unit to it.\<close>

definition deployed_full_fee :: InvisibleTransfer where
  "deployed_full_fee = constructor (call_by admin 1000) 10000"

definition published_full_fee :: "tokens \<times> InvisibleTransfer" where
  "published_full_fee =
     fst (transact (call_by alice 2000) tokens0 deployed_full_fee (Publish 9 usdc 1))"

text \<open>
  A token that calls back. The contract at \<open>evil\<close> keeps balances as \<^verbatim>\<open>MockERC20\<close>
  does, and the first time its \<^verbatim>\<open>transferFrom\<close> is entered it publishes the identifier
  7 itself, with 1000 of its own units, and claims it, before it moves any balance; its
  later entries only move balances. Mallory publishes 5000 units of it under the
  identifier 7, and Bob claims that identifier afterwards.
\<close>

definition mallory :: address where "mallory = 3"
definition evil :: address where "evil = 1638"

definition evil_ledger :: MockERC20 where
  "evil_ledger = \<lparr>balanceOf = (\<lambda>_. 0)(mallory := 10000, evil := 10000),
                  allowance = (\<lambda>_ _. 0)(mallory := (\<lambda>_. 0)(escrow := 10000),
                                         evil := (\<lambda>_. 0)(escrow := 10000))\<rparr>"

definition evil_tokens :: tokens where
  "evil_tokens = Map.empty(evil \<mapsto> evil_ledger)"

definition evil_hooks :: hooks where
  "evil_hooks =
     \<lparr>on_transferFrom = (\<lambda>a c w.
        if a = evil
        then and_then (exec c (fst w) (snd w) (Publish 7 evil 1000)) (\<lambda>(tk1, s1).
             exec c tk1 s1 (Claim 7))
        else Inr w),
      on_transfer = (\<lambda>_ _ w. Inr w)\<rparr>"

text \<open>The value of a call that does not revert; \<open>d\<close> otherwise.\<close>

definition result_or :: "'a \<Rightarrow> error + 'a \<Rightarrow> 'a" where
  "result_or d r = (case r of Inl _ \<Rightarrow> d | Inr x \<Rightarrow> x)"

text \<open>The tokens and the storage when the token returns to Mallory's publish.\<close>

definition reentered :: chain where
  "reentered =
     fst (result_or ((evil_tokens, deployed), False)
            (reentrant_transferFrom evil_hooks (call_by mallory 2000) (evil_tokens, deployed)
               evil mallory escrow 5000))"

text \<open>After Mallory's publish.\<close>

definition overwritten :: chain where
  "overwritten =
     result_or (evil_tokens, deployed)
       (publishHiddenTransfer_reentrant evil_hooks (call_by mallory 2000)
          (evil_tokens, deployed) 7 evil 5000)"

text \<open>After Bob's claim.\<close>

definition claimed_again :: chain where
  "claimed_again =
     fst (transact (call_by bob 3000) (fst overwritten) (snd overwritten) (Claim 7))"

section \<open>Properties\<close>

subsection \<open>Sequencing, checked arithmetic and the token\<close>

lemma and_then_Inl [simp]: "and_then (Inl e) f = Inl e"
  by (simp add: and_then_def)

lemma and_then_Inr [simp]: "and_then (Inr x) f = f x"
  by (simp add: and_then_def)

lemma and_then_eq_Inr: "and_then r f = Inr y \<longleftrightarrow> (\<exists>x. r = Inr x \<and> f x = Inr y)"
  by (cases r) simp_all

lemma require_eq_Inr [simp]: "require b e = Inr u \<longleftrightarrow> b"
  by (simp add: require_def)

lemma require_eq_Inl [simp]: "require b e = Inl e' \<longleftrightarrow> \<not> b \<and> e' = e"
  by (auto simp: require_def)

lemma require_True [simp]: "require True e = Inr ()"
  by (simp add: require_def)

lemma require_False [simp]: "require False e = Inl e"
  by (simp add: require_def)

lemma checked_add_eq_Inr:
  "checked_add a b = Inr v \<longleftrightarrow> unat a + unat b < 2 ^ 256 \<and> v = a + b"
  by (auto simp: checked_add_def)

lemma checked_sub_eq_Inr:
  "checked_sub a b = Inr v \<longleftrightarrow> unat b \<le> unat a \<and> v = a - b"
  by (auto simp: checked_sub_def)

lemma checked_mul_eq_Inr:
  "checked_mul a b = Inr v \<longleftrightarrow> unat a * unat b < 2 ^ 256 \<and> v = a * b"
  by (auto simp: checked_mul_def)

lemma unat_lt_2p256: "unat (x :: uint256) < 2 ^ 256"
  by (rule order_less_le_trans [OF unsigned_less]) simp

lemma mock_transfer_Inr:
  "mock_transfer caller to amt t = Inr (t', ok) \<longleftrightarrow>
     (ok \<and> unat amt \<le> unat (balanceOf t caller) \<and>
      (to \<noteq> caller \<longrightarrow> unat (balanceOf t to) + unat amt < 2 ^ 256) \<and>
      t' = t\<lparr>balanceOf :=
             (if to = caller then balanceOf t
              else (balanceOf t)(caller := balanceOf t caller - amt,
                                 to := balanceOf t to + amt))\<rparr>)"
proof (cases "to = caller")
  case True
  have "unat (balanceOf t caller - amt) + unat amt < 2 ^ 256"
    if "amt \<le> balanceOf t caller"
    using that unat_lt_2p256 [of "balanceOf t caller"] by (simp add: unat_sub word_le_nat_alt)
  with True show ?thesis
    by (auto simp: mock_transfer_def Let_def and_then_eq_Inr checked_add_eq_Inr
          checked_sub_eq_Inr word_le_nat_alt)
next
  case False
  then show ?thesis
    by (auto simp: mock_transfer_def Let_def and_then_eq_Inr checked_add_eq_Inr
          checked_sub_eq_Inr word_le_nat_alt)
qed

lemma call_transfer_Inr:
  "call_transfer tk tkn caller to amt = Inr (tk', ok) \<longleftrightarrow>
     (\<exists>t. tk tkn = Some t \<and> ok \<and> unat amt \<le> unat (balanceOf t caller) \<and>
      (to \<noteq> caller \<longrightarrow> unat (balanceOf t to) + unat amt < 2 ^ 256) \<and>
      tk' = tk(tkn \<mapsto> t\<lparr>balanceOf :=
             (if to = caller then balanceOf t
              else (balanceOf t)(caller := balanceOf t caller - amt,
                                 to := balanceOf t to + amt))\<rparr>))"
  by (cases "tk tkn") (auto simp: call_transfer_def and_then_eq_Inr mock_transfer_Inr)

lemma call_transfer_balance:
  assumes "call_transfer tk tkn caller to amt = Inr (tk', ok)"
  shows "ok"
    and "to \<noteq> caller \<Longrightarrow> balance tk' tkn to = balance tk tkn to + unat amt"
    and "to \<noteq> caller \<Longrightarrow> balance tk' tkn caller + unat amt = balance tk tkn caller"
    and "to = caller \<Longrightarrow> balance tk' x a = balance tk x a"
    and "a \<noteq> caller \<Longrightarrow> a \<noteq> to \<Longrightarrow> balance tk' x a = balance tk x a"
    and "x \<noteq> tkn \<Longrightarrow> balance tk' x a = balance tk x a"
  using assms
  by (auto simp: call_transfer_Inr balance_def unat_sub word_le_nat_alt unat_word_ariths
        split: if_splits)

lemma mock_transferFrom_Inr:
  "mock_transferFrom caller from to amt t = Inr (t', ok) \<longleftrightarrow>
     (ok \<and> unat amt \<le> unat (balanceOf t from) \<and> unat amt \<le> unat (allowance t from caller) \<and>
      (to \<noteq> from \<longrightarrow> unat (balanceOf t to) + unat amt < 2 ^ 256) \<and>
      t' = t\<lparr>balanceOf :=
               (if to = from then balanceOf t
                else (balanceOf t)(from := balanceOf t from - amt,
                                   to := balanceOf t to + amt)),
             allowance := (allowance t)(from := (allowance t from)
                             (caller := allowance t from caller - amt))\<rparr>)"
proof (cases "to = from")
  case True
  have "unat (balanceOf t from - amt) + unat amt < 2 ^ 256"
    if "amt \<le> balanceOf t from"
    using that unat_lt_2p256 [of "balanceOf t from"] by (simp add: unat_sub word_le_nat_alt)
  with True show ?thesis
    by (auto simp: mock_transferFrom_def Let_def and_then_eq_Inr checked_add_eq_Inr
          checked_sub_eq_Inr word_le_nat_alt)
next
  case False
  then show ?thesis
    by (auto simp: mock_transferFrom_def Let_def and_then_eq_Inr checked_add_eq_Inr
          checked_sub_eq_Inr word_le_nat_alt)
qed

lemma call_transferFrom_Inr:
  "call_transferFrom tk tkn caller from to amt = Inr (tk', ok) \<longleftrightarrow>
     (\<exists>t. tk tkn = Some t \<and> ok \<and> unat amt \<le> unat (balanceOf t from) \<and>
      unat amt \<le> unat (allowance t from caller) \<and>
      (to \<noteq> from \<longrightarrow> unat (balanceOf t to) + unat amt < 2 ^ 256) \<and>
      tk' = tk(tkn \<mapsto> t\<lparr>balanceOf :=
               (if to = from then balanceOf t
                else (balanceOf t)(from := balanceOf t from - amt,
                                   to := balanceOf t to + amt)),
             allowance := (allowance t)(from := (allowance t from)
                             (caller := allowance t from caller - amt))\<rparr>))"
  by (cases "tk tkn") (auto simp: call_transferFrom_def and_then_eq_Inr mock_transferFrom_Inr)

lemma call_transferFrom_balance:
  assumes "call_transferFrom tk tkn caller from to amt = Inr (tk', ok)"
  shows "ok"
    and "to \<noteq> from \<Longrightarrow> balance tk' tkn to = balance tk tkn to + unat amt"
    and "to \<noteq> from \<Longrightarrow> balance tk' tkn from + unat amt = balance tk tkn from"
    and "to = from \<Longrightarrow> balance tk' x a = balance tk x a"
    and "a \<noteq> from \<Longrightarrow> a \<noteq> to \<Longrightarrow> balance tk' x a = balance tk x a"
    and "x \<noteq> tkn \<Longrightarrow> balance tk' x a = balance tk x a"
  using assms
  by (auto simp: call_transferFrom_Inr balance_def unat_sub word_le_nat_alt unat_word_ariths
        split: if_splits)

subsection \<open>When a call succeeds, and what it stores\<close>

lemma publish_Inr:
  "publishHiddenTransfer c tk s h tkn amt = Inr (tk', s') \<longleftrightarrow>
     (amt \<noteq> 0 \<and> timestamp (hiddenTransfers s h) = 0 \<and> tkn \<noteq> 0 \<and>
      unat amt * unat (platformFee s) < 2 ^ 256 \<and>
      unat amt * unat (platformFee s) div 10000 \<le> unat amt \<and>
      unat (totalTransfers s) + 1 < 2 ^ 256 \<and>
      (\<exists>tk1. call_transferFrom tk tkn (this c) (msg_sender c) (this c) amt = Inr (tk1, True) \<and>
         (if amt * platformFee s div 10000 = 0 then tk' = tk1
          else call_transfer tk1 tkn (this c) (feeCollector s) (amt * platformFee s div 10000)
                 = Inr (tk', True))) \<and>
      s' = s\<lparr>hiddenTransfers := (hiddenTransfers s)
                 (h := \<lparr>sender = msg_sender c, token = tkn,
                        amount = amt - amt * platformFee s div 10000,
                        timestamp = block_timestamp c, claimed = False\<rparr>),
              userSentTransfers := (userSentTransfers s)
                 (msg_sender c := userSentTransfers s (msg_sender c) @ [h]),
              totalTransfers := totalTransfers s + 1\<rparr>)"
proof (cases "amt * platformFee s div 10000 = 0")
  case True
  then show ?thesis
    by (auto simp: publishHiddenTransfer_def Let_def and_then_eq_Inr checked_add_eq_Inr
          checked_sub_eq_Inr checked_mul_eq_Inr word_gt_0 unat_div unat_mult_lem [THEN iffD1])
next
  case False
  then show ?thesis
    by (auto simp: publishHiddenTransfer_def Let_def and_then_eq_Inr checked_add_eq_Inr
          checked_sub_eq_Inr checked_mul_eq_Inr word_gt_0 unat_div unat_mult_lem [THEN iffD1])
qed

lemma claim_Inr:
  "claimHiddenTransfer c tk s h = Inr (tk', s') \<longleftrightarrow>
     (0 < timestamp (hiddenTransfers s h) \<and> \<not> claimed (hiddenTransfers s h) \<and>
      0 < amount (hiddenTransfers s h) \<and> unat (totalClaimed s) + 1 < 2 ^ 256 \<and>
      call_transfer tk (token (hiddenTransfers s h)) (this c) (msg_sender c)
         (amount (hiddenTransfers s h)) = Inr (tk', True) \<and>
      s' = s\<lparr>hiddenTransfers := (hiddenTransfers s)
                 (h := (hiddenTransfers s h)\<lparr>claimed := True\<rparr>),
              totalClaimed := totalClaimed s + 1,
              userReceivedTransfers := (userReceivedTransfers s)
                 (msg_sender c := userReceivedTransfers s (msg_sender c) @ [h])\<rparr>)"
  by (auto simp: claimHiddenTransfer_def Let_def and_then_eq_Inr checked_add_eq_Inr)

lemma cancel_Inr:
  "cancelHiddenTransfer c tk s h = Inr (tk', s') \<longleftrightarrow>
     (sender (hiddenTransfers s h) = msg_sender c \<and> \<not> claimed (hiddenTransfers s h) \<and>
      unat (timestamp (hiddenTransfers s h)) + 604800 \<le> unat (block_timestamp c) \<and>
      call_transfer tk (token (hiddenTransfers s h)) (this c) (msg_sender c)
         (amount (hiddenTransfers s h)) = Inr (tk', True) \<and>
      s' = s\<lparr>hiddenTransfers := (hiddenTransfers s)
                 (h := (hiddenTransfers s h)\<lparr>claimed := True\<rparr>)\<rparr>)"
  using unat_lt_2p256 [of "block_timestamp c"]
  by (auto simp: cancelHiddenTransfer_def Let_def and_then_eq_Inr checked_add_eq_Inr
        seven_days_def word_le_nat_alt unat_word_ariths)

lemma updatePlatformFee_Inr:
  "updatePlatformFee c s newFee = Inr s' \<longleftrightarrow>
     msg_sender c = owner s \<and> newFee \<le> 500 \<and> s' = s\<lparr>platformFee := newFee\<rparr>"
  by (auto simp: updatePlatformFee_def onlyOwner_def and_then_eq_Inr)

lemma updateFeeCollector_Inr:
  "updateFeeCollector c s a = Inr s' \<longleftrightarrow>
     msg_sender c = owner s \<and> a \<noteq> 0 \<and> s' = s\<lparr>feeCollector := a\<rparr>"
  by (auto simp: updateFeeCollector_def onlyOwner_def and_then_eq_Inr)

lemma emergencyWithdraw_Inr:
  "emergencyWithdraw c tk s tkn amt = Inr (tk', s') \<longleftrightarrow>
     msg_sender c = owner s \<and> call_transfer tk tkn (this c) (owner s) amt = Inr (tk', True) \<and>
     s' = s"
  by (auto simp: emergencyWithdraw_def onlyOwner_def and_then_eq_Inr)

lemmas exec_Inr = publish_Inr claim_Inr cancel_Inr updatePlatformFee_Inr
  updateFeeCollector_Inr emergencyWithdraw_Inr and_then_eq_Inr

lemma call_transfer_result:
  "(\<exists>e. call_transfer tk tkn caller to amt = Inl e \<and>
        (e = CallToNonContract \<or> e = InsufficientBalance \<or> e = Panic))
   \<or> (\<exists>tk'. call_transfer tk tkn caller to amt = Inr (tk', True))"
  by (cases "tk tkn")
     (auto simp: call_transfer_def mock_transfer_def Let_def and_then_def require_def
        checked_add_def checked_sub_def split: sum.splits)

lemma claim_unfold:
  assumes "timestamp (hiddenTransfers s h) \<noteq> 0" and "\<not> claimed (hiddenTransfers s h)"
    and "amount (hiddenTransfers s h) \<noteq> 0" and "unat (totalClaimed s) + 1 < 2 ^ 256"
  shows "claimHiddenTransfer c tk s h =
     and_then (call_transfer tk (token (hiddenTransfers s h)) (this c) (msg_sender c)
                 (amount (hiddenTransfers s h))) (\<lambda>(tk1, ok).
     and_then (require ok ClaimTransferFailed) (\<lambda>_.
     Inr (tk1, s\<lparr>hiddenTransfers := (hiddenTransfers s)
                      (h := (hiddenTransfers s h)\<lparr>claimed := True\<rparr>),
                   totalClaimed := totalClaimed s + 1,
                   userReceivedTransfers := (userReceivedTransfers s)
                      (msg_sender c := userReceivedTransfers s (msg_sender c) @ [h])\<rparr>)))"
  using assms by (simp add: claimHiddenTransfer_def Let_def checked_add_def word_gt_0)

lemma cancel_unfold:
  assumes "sender (hiddenTransfers s h) = msg_sender c" and "\<not> claimed (hiddenTransfers s h)"
    and "unat (timestamp (hiddenTransfers s h)) + 604800 < 2 ^ 256"
  shows "cancelHiddenTransfer c tk s h =
     (if unat (block_timestamp c) < unat (timestamp (hiddenTransfers s h)) + 604800
      then Inl TooEarly
      else and_then (call_transfer tk (token (hiddenTransfers s h)) (this c) (msg_sender c)
                 (amount (hiddenTransfers s h))) (\<lambda>(tk1, ok).
           and_then (require ok CancelTransferFailed) (\<lambda>_.
           Inr (tk1, s\<lparr>hiddenTransfers := (hiddenTransfers s)
                      (h := (hiddenTransfers s h)\<lparr>claimed := True\<rparr>)\<rparr>))))"
proof -
  have "unat (timestamp (hiddenTransfers s h) + 604800)
          = unat (timestamp (hiddenTransfers s h)) + 604800"
    using assms(3) unat_add_lem [of "timestamp (hiddenTransfers s h)" 604800] by simp
  with assms show ?thesis
    by (simp add: cancelHiddenTransfer_def Let_def checked_add_def seven_days_def
          word_le_nat_alt not_le)
qed

text \<open>What one successful call does to the record under an identifier.\<close>

lemma exec_record:
  assumes "exec c tk s x = Inr (tk', s')"
  shows "hiddenTransfers s' h = hiddenTransfers s h
       \<or> (\<exists>tkn amt. x = Publish h tkn amt) \<and> timestamp (hiddenTransfers s h) = 0 \<and>
           sender (hiddenTransfers s' h) = msg_sender c \<and>
           timestamp (hiddenTransfers s' h) = block_timestamp c \<and>
           \<not> claimed (hiddenTransfers s' h)
       \<or> (x = Claim h \<and> timestamp (hiddenTransfers s h) \<noteq> 0
            \<or> x = Cancel h \<and> sender (hiddenTransfers s h) = msg_sender c) \<and>
           \<not> claimed (hiddenTransfers s h) \<and>
           hiddenTransfers s' h = (hiddenTransfers s h)\<lparr>claimed := True\<rparr>"
  using assms by (cases x) (auto simp: exec_Inr)

lemma fee_unat:
  "unat amt * unat r < 2 ^ 256 \<Longrightarrow>
   unat ((amt :: uint256) * r div 10000) = unat amt * unat r div 10000"
  by (simp add: unat_div unat_mult_lem [THEN iffD1])

subsection \<open>Invariants of the reachable storage\<close>

text \<open>An identifier whose timestamp is 0 was never written: it holds the zero record.\<close>

lemma reachable_unwritten:
  "reachable s \<Longrightarrow> timestamp (hiddenTransfers s h) = 0 \<Longrightarrow> hiddenTransfers s h = zero_transfer"
proof (induction rule: reachable.induct)
  case (init c fee)
  then show ?case by (simp add: constructor_def)
next
  case (step s c tk x tk' s')
  from exec_record [OF step.hyps(3), of h] show ?case
  proof (elim disjE conjE)
    assume "hiddenTransfers s' h = hiddenTransfers s h"
    with step show ?thesis by simp
  next
    assume "timestamp (hiddenTransfers s' h) = block_timestamp c"
    with step.hyps(2) step.prems show ?thesis by (simp add: valid_ctx_def)
  next
    assume "hiddenTransfers s' h = (hiddenTransfers s h)\<lparr>claimed := True\<rparr>"
      and "x = Claim h" and "timestamp (hiddenTransfers s h) \<noteq> 0"
    with step.prems show ?thesis by simp
  next
    assume *: "hiddenTransfers s' h = (hiddenTransfers s h)\<lparr>claimed := True\<rparr>"
      and "x = Cancel h" and **: "sender (hiddenTransfers s h) = msg_sender c"
    from * step.prems have "timestamp (hiddenTransfers s h) = 0" by simp
    then have "hiddenTransfers s h = zero_transfer" by (rule step.IH)
    with ** step.hyps(2) show ?thesis by (simp add: valid_ctx_def zero_transfer_def)
  qed
qed

lemma reachable_timestamp_bound:
  "reachable s \<Longrightarrow> unat (timestamp (hiddenTransfers s h)) < 2 ^ 64"
proof (induction rule: reachable.induct)
  case (init c fee)
  then show ?case by (simp add: constructor_def zero_transfer_def)
next
  case (step s c tk x tk' s')
  from exec_record [OF step.hyps(3), of h] step.IH step.hyps(2) show ?case
    by (auto simp: valid_ctx_def)
qed

lemma reachable_claimed_exists:
  "reachable s \<Longrightarrow> claimed (hiddenTransfers s h) \<Longrightarrow> timestamp (hiddenTransfers s h) \<noteq> 0"
  by (auto dest: reachable_unwritten simp: zero_transfer_def)


lemma unat_plus_one:
  "unat (n :: uint256) + 1 < 2 ^ 256 \<Longrightarrow> unat (n + 1) = unat n + 1"
  using unat_add_lem [of n 1] by simp

lemma exec_sets:
  assumes ex: "exec c tk s x = Inr (tk', s')" and v: "valid_ctx c"
  shows
    "(\<exists>h. timestamp (hiddenTransfers s h) = 0 \<and>
        {g. timestamp (hiddenTransfers s' g) \<noteq> 0}
          = insert h {g. timestamp (hiddenTransfers s g) \<noteq> 0} \<and>
        {g. timestamp (hiddenTransfers s' g) \<noteq> 0 \<and> \<not> claimed (hiddenTransfers s' g)}
          = insert h {g. timestamp (hiddenTransfers s g) \<noteq> 0 \<and> \<not> claimed (hiddenTransfers s g)} \<and>
        unat (totalTransfers s') = unat (totalTransfers s) + 1 \<and>
        totalClaimed s' = totalClaimed s)
   \<or> (\<exists>h. timestamp (hiddenTransfers s h) \<noteq> 0 \<and> \<not> claimed (hiddenTransfers s h) \<and>
        {g. timestamp (hiddenTransfers s' g) \<noteq> 0} = {g. timestamp (hiddenTransfers s g) \<noteq> 0} \<and>
        {g. timestamp (hiddenTransfers s' g) \<noteq> 0 \<and> \<not> claimed (hiddenTransfers s' g)}
          = {g. timestamp (hiddenTransfers s g) \<noteq> 0 \<and> \<not> claimed (hiddenTransfers s g)} - {h} \<and>
        totalTransfers s' = totalTransfers s \<and>
        unat (totalClaimed s') = unat (totalClaimed s) + 1)
   \<or> ({g. timestamp (hiddenTransfers s' g) \<noteq> 0} = {g. timestamp (hiddenTransfers s g) \<noteq> 0} \<and>
        {g. timestamp (hiddenTransfers s' g) \<noteq> 0 \<and> \<not> claimed (hiddenTransfers s' g)}
          \<subseteq> {g. timestamp (hiddenTransfers s g) \<noteq> 0 \<and> \<not> claimed (hiddenTransfers s g)} \<and>
        totalTransfers s' = totalTransfers s \<and>
        totalClaimed s' = totalClaimed s)"
proof (cases x)
  case (Publish h tkn amt)
  with ex v have "timestamp (hiddenTransfers s h) = 0 \<and>
        {g. timestamp (hiddenTransfers s' g) \<noteq> 0}
          = insert h {g. timestamp (hiddenTransfers s g) \<noteq> 0} \<and>
        {g. timestamp (hiddenTransfers s' g) \<noteq> 0 \<and> \<not> claimed (hiddenTransfers s' g)}
          = insert h {g. timestamp (hiddenTransfers s g) \<noteq> 0 \<and> \<not> claimed (hiddenTransfers s g)} \<and>
        unat (totalTransfers s') = unat (totalTransfers s) + 1 \<and>
        totalClaimed s' = totalClaimed s"
    by (auto simp: publish_Inr valid_ctx_def unat_plus_one)
  then show ?thesis by blast
next
  case (Claim h)
  with ex have "timestamp (hiddenTransfers s h) \<noteq> 0 \<and> \<not> claimed (hiddenTransfers s h) \<and>
        {g. timestamp (hiddenTransfers s' g) \<noteq> 0} = {g. timestamp (hiddenTransfers s g) \<noteq> 0} \<and>
        {g. timestamp (hiddenTransfers s' g) \<noteq> 0 \<and> \<not> claimed (hiddenTransfers s' g)}
          = {g. timestamp (hiddenTransfers s g) \<noteq> 0 \<and> \<not> claimed (hiddenTransfers s g)} - {h} \<and>
        totalTransfers s' = totalTransfers s \<and>
        unat (totalClaimed s') = unat (totalClaimed s) + 1"
    by (auto simp: claim_Inr unat_plus_one)
  then show ?thesis by blast
next
  case (Cancel h)
  with ex have "{g. timestamp (hiddenTransfers s' g) \<noteq> 0} = {g. timestamp (hiddenTransfers s g) \<noteq> 0} \<and>
        {g. timestamp (hiddenTransfers s' g) \<noteq> 0 \<and> \<not> claimed (hiddenTransfers s' g)}
          \<subseteq> {g. timestamp (hiddenTransfers s g) \<noteq> 0 \<and> \<not> claimed (hiddenTransfers s g)} \<and>
        totalTransfers s' = totalTransfers s \<and>
        totalClaimed s' = totalClaimed s"
    by (auto simp: cancel_Inr)
  then show ?thesis by blast
next
  case (UpdatePlatformFee n)
  with ex show ?thesis by (auto simp: exec_Inr)
next
  case (UpdateFeeCollector a)
  with ex show ?thesis by (auto simp: exec_Inr)
next
  case (EmergencyWithdraw tkn amt)
  with ex show ?thesis by (auto simp: exec_Inr)
qed

lemma reachable_counters:
  "reachable s \<Longrightarrow>
     finite {g. timestamp (hiddenTransfers s g) \<noteq> 0} \<and>
     unat (totalClaimed s)
       + card {g. timestamp (hiddenTransfers s g) \<noteq> 0 \<and> \<not> claimed (hiddenTransfers s g)}
       \<le> unat (totalTransfers s)"
proof (induction rule: reachable.induct)
  case (init c fee)
  then show ?case by (simp add: constructor_def zero_transfer_def)
next
  case (step s c tk x tk' s')
  let ?E = "{g. timestamp (hiddenTransfers s g) \<noteq> 0}"
  let ?U = "{g. timestamp (hiddenTransfers s g) \<noteq> 0 \<and> \<not> claimed (hiddenTransfers s g)}"
  from step.IH have finE: "finite ?E"
    and le: "unat (totalClaimed s) + card ?U \<le> unat (totalTransfers s)" by simp_all
  have finU: "finite ?U" by (rule finite_subset [OF _ finE]) auto
  from exec_sets [OF step.hyps(3) step.hyps(2)] show ?case
  proof (elim disjE exE conjE)
    fix h
    assume "timestamp (hiddenTransfers s h) = 0"
      and "{g. timestamp (hiddenTransfers s' g) \<noteq> 0} = insert h ?E"
      and "{g. timestamp (hiddenTransfers s' g) \<noteq> 0 \<and> \<not> claimed (hiddenTransfers s' g)}
             = insert h ?U"
      and "unat (totalTransfers s') = unat (totalTransfers s) + 1"
      and "totalClaimed s' = totalClaimed s"
    with finE finU le show ?thesis by simp
  next
    fix h
    assume "timestamp (hiddenTransfers s h) \<noteq> 0" and "\<not> claimed (hiddenTransfers s h)"
      and "{g. timestamp (hiddenTransfers s' g) \<noteq> 0} = ?E"
      and "{g. timestamp (hiddenTransfers s' g) \<noteq> 0 \<and> \<not> claimed (hiddenTransfers s' g)}
             = ?U - {h}"
      and "totalTransfers s' = totalTransfers s"
      and "unat (totalClaimed s') = unat (totalClaimed s) + 1"
    moreover from this finU have "0 < card ?U" by (auto simp: card_gt_0_iff)
    ultimately show ?thesis using finE finU le by simp
  next
    assume "{g. timestamp (hiddenTransfers s' g) \<noteq> 0} = ?E"
      and sub: "{g. timestamp (hiddenTransfers s' g) \<noteq> 0 \<and> \<not> claimed (hiddenTransfers s' g)}
             \<subseteq> ?U"
      and "totalTransfers s' = totalTransfers s"
      and "totalClaimed s' = totalClaimed s"
    moreover from card_mono [OF finU sub]
    have "card {g. timestamp (hiddenTransfers s' g) \<noteq> 0 \<and> \<not> claimed (hiddenTransfers s' g)}
            \<le> card ?U" .
    ultimately show ?thesis using finE le by simp
  qed
qed

text \<open>So the counter of claims cannot overflow when an escrowed transfer is claimed.\<close>

lemma reachable_claim_no_overflow:
  assumes "reachable s" and "timestamp (hiddenTransfers s h) \<noteq> 0"
    and "\<not> claimed (hiddenTransfers s h)"
  shows "unat (totalClaimed s) + 1 < 2 ^ 256"
proof -
  let ?U = "{g. timestamp (hiddenTransfers s g) \<noteq> 0 \<and> \<not> claimed (hiddenTransfers s g)}"
  from reachable_counters [OF assms(1)]
  have fin: "finite {g. timestamp (hiddenTransfers s g) \<noteq> 0}"
    and le: "unat (totalClaimed s) + card ?U \<le> unat (totalTransfers s)" by simp_all
  have "finite ?U" by (rule finite_subset [OF _ fin]) auto
  moreover have "h \<in> ?U" using assms by simp
  ultimately have "0 < card ?U" by (auto simp: card_gt_0_iff)
  with le unat_lt_2p256 [of "totalTransfers s"] show ?thesis by simp
qed

subsection \<open>Sequences of transactions\<close>

lemma transact_cases:
  "snd (fst (transact c tk s x)) = s \<or>
   (\<exists>tk'. exec c tk s x = Inr (tk', snd (fst (transact c tk s x))))"
  by (cases "exec c tk s x") (auto simp: transact_def)

lemma reachable_transact:
  "reachable s \<Longrightarrow> valid_ctx c \<Longrightarrow> reachable (snd (fst (transact c tk s x)))"
  using transact_cases [of c tk s x] by (auto intro: reachable.step)

lemma reachable_run:
  "reachable s \<Longrightarrow> \<forall>y \<in> set xs. valid_ctx (fst y) \<Longrightarrow> reachable (run s xs)"
proof (induction xs arbitrary: s)
  case Nil
  then show ?case by simp
next
  case (Cons y ys)
  obtain c tk x where y: "y = (c, tk, x)" by (cases y)
  with Cons.prems have "reachable (snd (fst (transact c tk s x)))"
    by (simp add: reachable_transact)
  with Cons.IH Cons.prems(2) y show ?case by simp
qed

lemma transact_record:
  assumes "timestamp (hiddenTransfers s h) \<noteq> 0"
  shows "hiddenTransfers (snd (fst (transact c tk s x))) h = hiddenTransfers s h
       \<or> \<not> claimed (hiddenTransfers s h) \<and>
         hiddenTransfers (snd (fst (transact c tk s x))) h
           = (hiddenTransfers s h)\<lparr>claimed := True\<rparr> \<and>
         (x = Claim h \<or> x = Cancel h)"
  using transact_cases [of c tk s x] assms
  by (auto dest!: exec_record [where h = h])

lemma run_record:
  assumes "timestamp (hiddenTransfers s h) \<noteq> 0"
  shows "hiddenTransfers (run s xs) h = hiddenTransfers s h
       \<or> \<not> claimed (hiddenTransfers s h) \<and>
         hiddenTransfers (run s xs) h = (hiddenTransfers s h)\<lparr>claimed := True\<rparr> \<and>
         (\<exists>y \<in> set xs. snd (snd y) = Claim h \<or> snd (snd y) = Cancel h)"
  using assms
proof (induction xs arbitrary: s)
  case Nil
  then show ?case by simp
next
  case (Cons y ys)
  obtain c tk x where y: "y = (c, tk, x)" by (cases y)
  let ?s1 = "snd (fst (transact c tk s x))"
  from transact_record [OF Cons.prems, of c tk x]
  have first: "hiddenTransfers ?s1 h = hiddenTransfers s h
       \<or> \<not> claimed (hiddenTransfers s h) \<and>
         hiddenTransfers ?s1 h = (hiddenTransfers s h)\<lparr>claimed := True\<rparr> \<and>
         (x = Claim h \<or> x = Cancel h)" .
  then have ts: "timestamp (hiddenTransfers ?s1 h) \<noteq> 0"
    using Cons.prems by auto
  from Cons.IH [OF ts] first y show ?case
    by auto
qed

text \<open>
  With tokens that call nobody, as \<^verbatim>\<open>MockERC20\<close>, the records do keep: from a reachable
  storage and through any sequence of transactions a claimed record stays as it is, and
  an existing record changes only by its \<open>claimed\<close> flag becoming true, under a claim
  or a cancel of its identifier.
\<close>

lemma passive_token_record_lifecycle:
  assumes "reachable s"
  shows "(claimed (hiddenTransfers s h) \<longrightarrow> hiddenTransfers (run s xs) h = hiddenTransfers s h) \<and>
         (timestamp (hiddenTransfers s h) \<noteq> 0 \<longrightarrow>
            hiddenTransfers (run s xs) h = hiddenTransfers s h
          \<or> \<not> claimed (hiddenTransfers s h) \<and>
            hiddenTransfers (run s xs) h = (hiddenTransfers s h)\<lparr>claimed := True\<rparr> \<and>
            (\<exists>y \<in> set xs. snd (snd y) = Claim h \<or> snd (snd y) = Cancel h))"
proof (intro conjI impI)
  assume ts: "timestamp (hiddenTransfers s h) \<noteq> 0"
  from run_record [OF ts]
  show "hiddenTransfers (run s xs) h = hiddenTransfers s h
          \<or> \<not> claimed (hiddenTransfers s h) \<and>
            hiddenTransfers (run s xs) h = (hiddenTransfers s h)\<lparr>claimed := True\<rparr> \<and>
            (\<exists>y \<in> set xs. snd (snd y) = Claim h \<or> snd (snd y) = Cancel h)" .
next
  assume cl: "claimed (hiddenTransfers s h)"
  with assms have "timestamp (hiddenTransfers s h) \<noteq> 0"
    by (rule reachable_claimed_exists)
  from run_record [OF this] cl
  show "hiddenTransfers (run s xs) h = hiddenTransfers s h" by simp
qed

subsection \<open>Publishing with a token that calls back\<close>

text \<open>With a token that calls nobody the two embeddings of publish agree.\<close>

lemma publish_without_callbacks:
  "publishHiddenTransfer_reentrant no_hooks c (tk, s) h tkn amt
     = publishHiddenTransfer c tk s h tkn amt"
  by (cases "tk tkn")
     (auto simp: publishHiddenTransfer_reentrant_def publishHiddenTransfer_def no_hooks_def
        reentrant_transferFrom_def reentrant_transfer_def call_transferFrom_def
        call_transfer_def Let_def and_then_def split: sum.splits prod.splits option.splits)

lemmas evil_defs = mallory_def evil_def evil_ledger_def evil_tokens_def evil_hooks_def
  result_or_def publishHiddenTransfer_reentrant_def reentrant_transferFrom_def
  reentrant_transfer_def

subsection \<open>The fee configuration\<close>

text \<open>
  Only the owner changes the fee rate or the fee collector, \<open>updatePlatformFee\<close>
  rejects a rate above 500, and no call takes a rate that is at most 500 above it.
\<close>

lemma owner_unchanged:
  "exec c tk s x = Inr (tk', s') \<Longrightarrow> owner s' = owner s"
  by (cases x) (auto simp: exec_Inr)

lemma fee_configuration_only_owner:
  assumes "exec c tk s x = Inr (tk', s')"
    and "platformFee s' \<noteq> platformFee s \<or> feeCollector s' \<noteq> feeCollector s"
  shows "msg_sender c = owner s"
  using assms by (cases x) (auto simp: exec_Inr)

lemma platformFee_bound_preserved:
  "exec c tk s x = Inr (tk', s') \<Longrightarrow> platformFee s \<le> 500 \<Longrightarrow> platformFee s' \<le> 500"
  by (cases x) (auto simp: exec_Inr)

lemma updatePlatformFee_rejects:
  "msg_sender c \<noteq> owner s \<Longrightarrow> updatePlatformFee c s newFee = Inl NotOwner"
  "msg_sender c = owner s \<Longrightarrow> 500 < newFee \<Longrightarrow> updatePlatformFee c s newFee = Inl FeeTooHigh"
  by (simp_all add: updatePlatformFee_def onlyOwner_def flip: not_le)

subsection \<open>The scenarios, evaluated\<close>

lemma call_by_simps [simp]:
  "msg_sender (call_by a t) = a" "block_timestamp (call_by a t) = t" "this (call_by a t) = escrow"
  by (simp_all add: call_by_def)

lemmas scenario_defs = admin_def alice_def bob_def escrow_def usdc_def usdc0_def
  tokens0_def deployed_def constructor_def zero_transfer_def

lemmas eval_defs = transact_def publishHiddenTransfer_def claimHiddenTransfer_def
  cancelHiddenTransfer_def emergencyWithdraw_def onlyOwner_def call_transferFrom_def
  call_transfer_def mock_transfer_def mock_transferFrom_def checked_add_def checked_mul_def
  checked_sub_def seven_days_def Let_def

lemma published_ok:
  "publishHiddenTransfer (call_by alice 2000) tokens0 deployed 7 usdc 10000 = Inr published"
  by (simp add: published_def scenario_defs eval_defs)

lemma published_record:
  "hiddenTransfers (snd published) 7 =
     \<lparr>sender = alice, token = usdc, amount = 9950, timestamp = 2000, claimed = False\<rparr>"
  by (simp add: published_def scenario_defs eval_defs)

lemma claimed_by_bob_ok:
  "claimHiddenTransfer (call_by bob 3000) (fst published) (snd published) 7 = Inr claimed_by_bob"
  by (simp add: claimed_by_bob_def published_def scenario_defs eval_defs)

lemma cancelled_ok:
  "cancelHiddenTransfer (call_by alice 606800) (fst published) (snd published) 7 = Inr cancelled"
  by (simp add: cancelled_def published_def scenario_defs eval_defs)

lemma reachable_deployed: "reachable deployed"
  unfolding deployed_def by (rule reachable.init) (simp add: valid_ctx_def scenario_defs)

lemma reachable_published: "reachable (snd published)"
proof (rule reachable.step [OF reachable_deployed])
  show "valid_ctx (call_by alice 2000)" by (simp add: valid_ctx_def scenario_defs)
  show "exec (call_by alice 2000) tokens0 deployed (Publish 7 usdc 10000)
          = Inr (fst published, snd published)"
    by (simp add: published_ok)
qed

lemma reachable_claimed_by_bob: "reachable (snd claimed_by_bob)"
proof (rule reachable.step [OF reachable_published])
  show "valid_ctx (call_by bob 3000)" by (simp add: valid_ctx_def scenario_defs)
  show "exec (call_by bob 3000) (fst published) (snd published) (Claim 7)
          = Inr (fst claimed_by_bob, snd claimed_by_bob)"
    by (simp add: claimed_by_bob_ok)
qed

lemma claimed_by_bob_record:
  "hiddenTransfers (snd claimed_by_bob) 7 =
     \<lparr>sender = alice, token = usdc, amount = 9950, timestamp = 2000, claimed = True\<rparr>"
  by (simp add: claimed_by_bob_def published_def scenario_defs eval_defs)

lemma cancelled_record:
  "hiddenTransfers (snd cancelled) 7 =
     \<lparr>sender = alice, token = usdc, amount = 9950, timestamp = 2000, claimed = True\<rparr>"
  by (simp add: cancelled_def published_def scenario_defs eval_defs)

lemma published_counters:
  "totalTransfers (snd published) = 1 \<and> totalClaimed (snd published) = 0"
  by (simp add: published_def scenario_defs eval_defs)

lemma drained_ok:
  "emergencyWithdraw (call_by admin 2500) (fst published) (snd published) usdc 9950 = Inr drained"
  by (simp add: drained_def published_def scenario_defs eval_defs)

lemma reachable_drained: "reachable (snd drained)"
proof (rule reachable.step [OF reachable_published])
  show "valid_ctx (call_by admin 2500)" by (simp add: valid_ctx_def scenario_defs)
  show "exec (call_by admin 2500) (fst published) (snd published) (EmergencyWithdraw usdc 9950)
          = Inr (fst drained, snd drained)"
    by (simp add: drained_ok)
qed

lemma drained_record:
  "hiddenTransfers (snd drained) 7 =
     \<lparr>sender = alice, token = usdc, amount = 9950, timestamp = 2000, claimed = False\<rparr>"
  by (simp add: drained_def published_def scenario_defs eval_defs)

lemma reachable_deployed_full_fee: "reachable deployed_full_fee"
  unfolding deployed_full_fee_def
  by (rule reachable.init) (simp add: valid_ctx_def scenario_defs)

lemma published_full_fee_ok:
  "publishHiddenTransfer (call_by alice 2000) tokens0 deployed_full_fee 9 usdc 1
     = Inr published_full_fee"
  by (simp add: published_full_fee_def deployed_full_fee_def scenario_defs eval_defs)

lemma reachable_published_full_fee: "reachable (snd published_full_fee)"
proof (rule reachable.step [OF reachable_deployed_full_fee])
  show "valid_ctx (call_by alice 2000)" by (simp add: valid_ctx_def scenario_defs)
  show "exec (call_by alice 2000) tokens0 deployed_full_fee (Publish 9 usdc 1)
          = Inr (fst published_full_fee, snd published_full_fee)"
    by (simp add: published_full_fee_ok)
qed

lemma published_full_fee_record:
  "hiddenTransfers (snd published_full_fee) 9 =
     \<lparr>sender = alice, token = usdc, amount = 0, timestamp = 2000, claimed = False\<rparr>"
  by (simp add: published_full_fee_def deployed_full_fee_def scenario_defs eval_defs)

section \<open>The claims\<close>




text \<open>
  C2, as amended. A publish under an identifier that already has a record (its timestamp
  is not 0) reverts and so leaves the record, the rest of the storage and the tokens as
  they were. It reverts with \<open>AlreadyExists\<close> when the amount is positive; the amount is
  checked before the identifier, so with the amount 0 it reverts with \<open>ZeroAmount\<close>.
\<close>

theorem publish_existing_rejected:
  "timestamp (hiddenTransfers s h) \<noteq> 0 \<Longrightarrow>
   transact c tk s (Publish h tkn amt) =
     ((tk, s), Some (if amt = 0 then ZeroAmount else AlreadyExists))"
  by (simp add: transact_def publishHiddenTransfer_def word_gt_0)

theorem publish_existing_rejected_witness:
  "timestamp (hiddenTransfers (snd published) 7) \<noteq> 0 \<and>
   transact (call_by alice 3000) (fst published) (snd published) (Publish 7 usdc 10000) =
     (published, Some AlreadyExists) \<and>
   transact (call_by alice 3000) (fst published) (snd published) (Publish 7 usdc 0) =
     (published, Some ZeroAmount)"
  using
    publish_existing_rejected [where s = "snd published" and h = 7 and c = "call_by alice 3000"
      and tk = "fst published" and tkn = usdc and amt = 10000]
    publish_existing_rejected [where s = "snd published" and h = 7 and c = "call_by alice 3000"
      and tk = "fst published" and tkn = usdc and amt = 0]
    published_record
  by simp

text \<open>
  C2 as stated fails: identifier 7 has a record, and publishing under it again with the
  amount 0 does not fail with \<open>AlreadyExists\<close>.
\<close>

theorem publish_zero_on_existing:
  "timestamp (hiddenTransfers (snd published) 7) \<noteq> 0 \<and>
   publishHiddenTransfer (call_by alice 3000) (fst published) (snd published) 7 usdc 0
     = Inl ZeroAmount \<and>
   publishHiddenTransfer (call_by alice 3000) (fst published) (snd published) 7 usdc 0
     \<noteq> Inl AlreadyExists"
  by (simp add: published_record publishHiddenTransfer_def)

text \<open>
  C3, as amended. After a successful publish of the amount \<open>A\<close> at the rate \<open>R\<close>, the
  record holds \<open>A - floor (A * R / 10000)\<close>; and when the fee collector is neither the
  publisher nor the contract itself, the fee collector's balance in the token has grown by
  exactly \<open>floor (A * R / 10000)\<close>.
\<close>

theorem publish_fee:
  assumes "publishHiddenTransfer c tk s h tkn amt = Inr (tk', s')"
  shows "unat (amount (hiddenTransfers s' h))
           = unat amt - unat amt * unat (platformFee s) div 10000 \<and>
         (feeCollector s \<noteq> msg_sender c \<and> feeCollector s \<noteq> this c \<longrightarrow>
            balance tk' tkn (feeCollector s)
              = balance tk tkn (feeCollector s) + unat amt * unat (platformFee s) div 10000)"
proof -
  let ?fee = "amt * platformFee s div 10000"
  from assms obtain tk1 where
    no_ovf: "unat amt * unat (platformFee s) < 2 ^ 256" and
    le: "unat amt * unat (platformFee s) div 10000 \<le> unat amt" and
    pull: "call_transferFrom tk tkn (this c) (msg_sender c) (this c) amt = Inr (tk1, True)" and
    pay: "if ?fee = 0 then tk' = tk1
          else call_transfer tk1 tkn (this c) (feeCollector s) ?fee = Inr (tk', True)" and
    rec: "amount (hiddenTransfers s' h) = amt - ?fee"
    by (auto simp: publish_Inr)
  have fee: "unat ?fee = unat amt * unat (platformFee s) div 10000"
    using no_ovf by (rule fee_unat)
  have "?fee \<le> amt"
    using le fee by (simp add: word_le_nat_alt)
  then have stored: "unat (amount (hiddenTransfers s' h))
      = unat amt - unat amt * unat (platformFee s) div 10000"
    using rec fee by (simp add: unat_sub)
  have paid: "balance tk' tkn (feeCollector s)
      = balance tk tkn (feeCollector s) + unat amt * unat (platformFee s) div 10000"
    if other: "feeCollector s \<noteq> msg_sender c" "feeCollector s \<noteq> this c"
  proof -
    have before: "balance tk1 tkn (feeCollector s) = balance tk tkn (feeCollector s)"
      using call_transferFrom_balance(5) [OF pull, of "feeCollector s" tkn] other by simp
    show ?thesis
    proof (cases "?fee = 0")
      case True
      with pay fee before show ?thesis by simp
    next
      case False
      with pay have "call_transfer tk1 tkn (this c) (feeCollector s) ?fee = Inr (tk', True)"
        by simp
      from call_transfer_balance(2) [OF this] other before fee show ?thesis by simp
    qed
  qed
  from stored paid show ?thesis by blast
qed

theorem publish_fee_witness:
  "publishHiddenTransfer (call_by alice 2000) tokens0 deployed 7 usdc 10000 = Inr published \<and>
   platformFee deployed = 50 \<and> feeCollector deployed = admin \<and>
   unat (amount (hiddenTransfers (snd published) 7)) = 9950 \<and>
   balance tokens0 usdc admin = 500000 \<and>
   balance (fst published) usdc admin = 500050"
  using publish_fee [where c = "call_by alice 2000" and tk = tokens0 and s = deployed and h = 7
      and tkn = usdc and amt = 10000 and tk' = "fst published" and s' = "snd published"]
    published_ok
  by (simp add: scenario_defs balance_def)

text \<open>
  C3 as stated fails when the fee collector publishes: the deployer is the fee collector,
  publishes 10000 units at 50 basis points, and the deployer's balance goes from 500000
  to 490050 instead of growing by the fee of 50.
\<close>

theorem publish_by_fee_collector:
  "publishHiddenTransfer (call_by admin 2000) tokens0 deployed 8 usdc 10000
     = Inr published_by_admin \<and>
   feeCollector deployed = admin \<and>
   unat (10000 :: uint256) * unat (platformFee deployed) div 10000 = 50 \<and>
   balance tokens0 usdc admin = 500000 \<and>
   balance (fst published_by_admin) usdc admin = 490050"
  by (simp add: published_by_admin_def scenario_defs eval_defs balance_def)

text \<open>
  C4, as amended. For an identifier that is escrowed and unclaimed in a reachable storage:
  a cancel by anyone but the record's sender reverts with \<open>NotSender\<close>, at any time; a
  cancel by the sender before 7 days (604800 seconds) have passed since the record's
  timestamp reverts with \<open>TooEarly\<close>; a cancel by the sender at or after 7 days does what
  the token's transfer of the recorded amount back to the sender does: when that transfer
  reverts the cancel reverts with the same error, and when it goes through the cancel
  succeeds, sets \<open>claimed\<close> and the sender's balance has grown by the full recorded
  amount.
\<close>

theorem cancel_rules:
  assumes "reachable s"
    and "timestamp (hiddenTransfers s h) \<noteq> 0" and "\<not> claimed (hiddenTransfers s h)"
  shows "(msg_sender c \<noteq> sender (hiddenTransfers s h) \<longrightarrow>
            cancelHiddenTransfer c tk s h = Inl NotSender) \<and>
         (msg_sender c = sender (hiddenTransfers s h) \<and>
          unat (block_timestamp c) < unat (timestamp (hiddenTransfers s h)) + 604800 \<longrightarrow>
            cancelHiddenTransfer c tk s h = Inl TooEarly) \<and>
         (msg_sender c = sender (hiddenTransfers s h) \<and>
          unat (timestamp (hiddenTransfers s h)) + 604800 \<le> unat (block_timestamp c) \<longrightarrow>
            (\<forall>e. call_transfer tk (token (hiddenTransfers s h)) (this c) (msg_sender c)
                    (amount (hiddenTransfers s h)) = Inl e \<longrightarrow>
                 cancelHiddenTransfer c tk s h = Inl e) \<and>
            (\<forall>tk'. call_transfer tk (token (hiddenTransfers s h)) (this c) (msg_sender c)
                    (amount (hiddenTransfers s h)) = Inr (tk', True) \<longrightarrow>
                 cancelHiddenTransfer c tk s h =
                   Inr (tk', s\<lparr>hiddenTransfers := (hiddenTransfers s)
                                  (h := (hiddenTransfers s h)\<lparr>claimed := True\<rparr>)\<rparr>) \<and>
                 (msg_sender c \<noteq> this c \<longrightarrow>
                    balance tk' (token (hiddenTransfers s h)) (sender (hiddenTransfers s h))
                      = balance tk (token (hiddenTransfers s h)) (sender (hiddenTransfers s h))
                        + unat (amount (hiddenTransfers s h)))))"
proof -
  from reachable_timestamp_bound [OF assms(1), of h]
  have bound: "unat (timestamp (hiddenTransfers s h)) + 604800 < 2 ^ 256" by simp
  show ?thesis
  proof (intro conjI impI allI; (elim conjE)?)
    assume "msg_sender c \<noteq> sender (hiddenTransfers s h)"
    then show "cancelHiddenTransfer c tk s h = Inl NotSender"
      by (auto simp: cancelHiddenTransfer_def Let_def)
  next
    assume "msg_sender c = sender (hiddenTransfers s h)"
      and "unat (block_timestamp c) < unat (timestamp (hiddenTransfers s h)) + 604800"
    with assms(3) bound show "cancelHiddenTransfer c tk s h = Inl TooEarly"
      by (simp add: cancel_unfold)
  next
    fix e
    assume "msg_sender c = sender (hiddenTransfers s h)"
      and "unat (timestamp (hiddenTransfers s h)) + 604800 \<le> unat (block_timestamp c)"
      and "call_transfer tk (token (hiddenTransfers s h)) (this c) (msg_sender c)
             (amount (hiddenTransfers s h)) = Inl e"
    with assms(3) bound show "cancelHiddenTransfer c tk s h = Inl e"
      by (simp add: cancel_unfold)
  next
    fix tk'
    assume "msg_sender c = sender (hiddenTransfers s h)"
      and "unat (timestamp (hiddenTransfers s h)) + 604800 \<le> unat (block_timestamp c)"
      and "call_transfer tk (token (hiddenTransfers s h)) (this c) (msg_sender c)
             (amount (hiddenTransfers s h)) = Inr (tk', True)"
    with assms(3) bound show "cancelHiddenTransfer c tk s h =
         Inr (tk', s\<lparr>hiddenTransfers := (hiddenTransfers s)
                        (h := (hiddenTransfers s h)\<lparr>claimed := True\<rparr>)\<rparr>)"
      by (simp add: cancel_unfold)
  next
    fix tk'
    assume snd: "msg_sender c = sender (hiddenTransfers s h)"
      and pay: "call_transfer tk (token (hiddenTransfers s h)) (this c) (msg_sender c)
             (amount (hiddenTransfers s h)) = Inr (tk', True)"
      and ne: "msg_sender c \<noteq> this c"
    from call_transfer_balance(2) [OF pay ne] snd
    show "balance tk' (token (hiddenTransfers s h)) (sender (hiddenTransfers s h))
            = balance tk (token (hiddenTransfers s h)) (sender (hiddenTransfers s h))
              + unat (amount (hiddenTransfers s h))" by simp
  qed
qed

theorem cancel_rules_witness:
  "reachable (snd published) \<and>
   timestamp (hiddenTransfers (snd published) 7) \<noteq> 0 \<and>
   \<not> claimed (hiddenTransfers (snd published) 7) \<and>
   sender (hiddenTransfers (snd published) 7) = alice \<and>
   unat (timestamp (hiddenTransfers (snd published) 7)) + 604800 = 606800 \<and>
   cancelHiddenTransfer (call_by bob 606800) (fst published) (snd published) 7 = Inl NotSender \<and>
   cancelHiddenTransfer (call_by alice 606799) (fst published) (snd published) 7 = Inl TooEarly \<and>
   cancelHiddenTransfer (call_by alice 606800) (fst published) (snd published) 7 = Inr cancelled \<and>
   claimed (hiddenTransfers (snd cancelled) 7) \<and>
   balance (fst published) usdc alice = 990000 \<and>
   balance (fst cancelled) usdc alice = 999950 \<and>
   cancelHiddenTransfer (call_by alice 606800) (fst drained) (snd drained) 7
     = Inl InsufficientBalance"
proof -
  have pay: "call_transfer (fst published) usdc escrow alice 9950 = Inr (fst cancelled, True)"
    by (simp add: cancelled_def published_def scenario_defs eval_defs)
  have nopay: "call_transfer (fst drained) usdc escrow alice 9950 = Inl InsufficientBalance"
    by (simp add: drained_def published_def scenario_defs eval_defs)
  have b0: "balance (fst published) usdc alice = 990000"
    by (simp add: published_def scenario_defs eval_defs balance_def)
  have ne: "bob \<noteq> alice" "alice \<noteq> escrow" by (simp_all add: scenario_defs)
  have t: "unat (606799 :: uint256) < 2000 + 604800" "2000 + 604800 \<le> unat (606800 :: uint256)"
    by simp_all
  from cancel_rules [OF reachable_published, where h = 7 and c = "call_by bob 606800"
      and tk = "fst published"]
    cancel_rules [OF reachable_published, where h = 7 and c = "call_by alice 606799"
      and tk = "fst published"]
    cancel_rules [OF reachable_published, where h = 7 and c = "call_by alice 606800"
      and tk = "fst published"]
    cancel_rules [OF reachable_drained, where h = 7 and c = "call_by alice 606800"
      and tk = "fst drained"]
    pay nopay b0 ne t reachable_published cancelled_ok
  show ?thesis
    by (simp add: published_record drained_record cancelled_record)
qed

text \<open>
  C4 as stated fails: after the owner's emergency withdrawal, Alice, the sender, cancels
  at seven days and the cancel reverts.
\<close>

theorem cancel_after_emergency_withdraw:
  "reachable (snd drained) \<and>
   timestamp (hiddenTransfers (snd drained) 7) \<noteq> 0 \<and>
   \<not> claimed (hiddenTransfers (snd drained) 7) \<and>
   sender (hiddenTransfers (snd drained) 7) = alice \<and>
   unat (timestamp (hiddenTransfers (snd drained) 7)) + 604800 \<le> unat (606800 :: uint256) \<and>
   transact (call_by alice 606800) (fst drained) (snd drained) (Cancel 7)
     = (drained, Some InsufficientBalance)"
  using reachable_drained
  by (simp add: drained_def published_def scenario_defs eval_defs)

text \<open>
  C5. The code does not keep a record once it exists. Identifier 7 has no record when
  Mallory publishes under it with the token at \<open>evil\<close>. When that token returns to
  Mallory's publish, identifier 7 holds a record that the token has published and
  claimed: sender \<open>evil\<close>, amount 995, \<open>claimed\<close> true. The publish then writes its own
  record over it: sender Mallory, amount 4975, \<open>claimed\<close> false. The flag has gone from
  true back to false, the record's creation is overwritten, and Bob's claim of the
  identifier succeeds as a second claim of it.
\<close>

theorem publish_overwrites_claimed_record:
  "reachable deployed \<and> timestamp (hiddenTransfers deployed 7) = 0 \<and>
   reentrant_transferFrom evil_hooks (call_by mallory 2000) (evil_tokens, deployed)
       evil mallory escrow 5000 = Inr (reentered, True) \<and>
   hiddenTransfers (snd reentered) 7 =
     \<lparr>sender = evil, token = evil, amount = 995, timestamp = 2000, claimed = True\<rparr> \<and>
   totalClaimed (snd reentered) = 1 \<and>
   publishHiddenTransfer_reentrant evil_hooks (call_by mallory 2000)
       (evil_tokens, deployed) 7 evil 5000 = Inr overwritten \<and>
   hiddenTransfers (snd overwritten) 7 =
     \<lparr>sender = mallory, token = evil, amount = 4975, timestamp = 2000, claimed = False\<rparr> \<and>
   claimHiddenTransfer (call_by bob 3000) (fst overwritten) (snd overwritten) 7
     = Inr claimed_again \<and>
   claimed (hiddenTransfers (snd claimed_again) 7) \<and>
   totalClaimed (snd claimed_again) = 2"
proof -
  have mid: "reentrant_transferFrom evil_hooks (call_by mallory 2000) (evil_tokens, deployed)
       evil mallory escrow 5000 = Inr (reentered, True) \<and>
     hiddenTransfers (snd reentered) 7 =
       \<lparr>sender = evil, token = evil, amount = 995, timestamp = 2000, claimed = True\<rparr> \<and>
     totalClaimed (snd reentered) = 1"
    by (simp add: reentered_def evil_defs scenario_defs eval_defs)
  have out: "publishHiddenTransfer_reentrant evil_hooks (call_by mallory 2000)
       (evil_tokens, deployed) 7 evil 5000 = Inr overwritten \<and>
     hiddenTransfers (snd overwritten) 7 =
       \<lparr>sender = mallory, token = evil, amount = 4975, timestamp = 2000, claimed = False\<rparr>"
    by (simp add: overwritten_def evil_defs scenario_defs eval_defs)
  have again: "claimHiddenTransfer (call_by bob 3000) (fst overwritten) (snd overwritten) 7
       = Inr claimed_again \<and>
     claimed (hiddenTransfers (snd claimed_again) 7) \<and>
     totalClaimed (snd claimed_again) = 2"
    by (simp add: claimed_again_def overwritten_def evil_defs scenario_defs eval_defs)
  have "timestamp (hiddenTransfers deployed 7) = 0" by (simp add: scenario_defs)
  with reachable_deployed mid out again show ?thesis by simp
qed

text \<open>
  C6. The bound of 500 basis points does not hold from construction onward: the
  constructor stores the rate it is given without the check that \<open>updatePlatformFee\<close>
  makes. A contract deployed with the rate 501 is in a reachable storage whose rate is
  above 500, while \<open>updatePlatformFee\<close> rejects the same rate with \<open>FeeTooHigh\<close>.
\<close>

theorem constructor_fee_unchecked:
  "reachable (constructor (call_by admin 1000) 501) \<and>
   platformFee (constructor (call_by admin 1000) 501) = 501 \<and>
   \<not> platformFee (constructor (call_by admin 1000) 501) \<le> 500 \<and>
   updatePlatformFee (call_by admin 2000) deployed 501 = Inl FeeTooHigh"
proof -
  have "valid_ctx (call_by admin 1000)" by (simp add: valid_ctx_def scenario_defs)
  then have "reachable (constructor (call_by admin 1000) 501)" by (rule reachable.init)
  then show ?thesis
    by (simp add: updatePlatformFee_def onlyOwner_def scenario_defs)
qed

text \<open>
  C7, as amended. In a reachable storage a claim reverts with \<open>NotFound\<close> if and only if
  the identifier has no record (its timestamp is 0), and with \<open>AlreadyClaimed\<close> if and
  only if the record's \<open>claimed\<close> flag is set. It has two more reasons to fail: it
  reverts with \<open>NoAmount\<close> if and only if the record is escrowed and unclaimed with the
  amount 0, and otherwise it reverts with the token's error when the token's transfer of
  the amount to the caller reverts. The caller's identity is not checked: whoever the
  caller of an escrowed, unclaimed identifier of positive amount is, the claim succeeds
  as soon as the token's transfer to that caller goes through.
\<close>

theorem claim_outcomes:
  assumes "reachable s"
  shows "(claimHiddenTransfer c tk s h = Inl NotFound \<longleftrightarrow>
            timestamp (hiddenTransfers s h) = 0) \<and>
         (claimHiddenTransfer c tk s h = Inl AlreadyClaimed \<longleftrightarrow>
            claimed (hiddenTransfers s h)) \<and>
         (claimHiddenTransfer c tk s h = Inl NoAmount \<longleftrightarrow>
            timestamp (hiddenTransfers s h) \<noteq> 0 \<and> \<not> claimed (hiddenTransfers s h) \<and>
            amount (hiddenTransfers s h) = 0) \<and>
         (timestamp (hiddenTransfers s h) \<noteq> 0 \<and> \<not> claimed (hiddenTransfers s h) \<and>
          amount (hiddenTransfers s h) \<noteq> 0 \<longrightarrow>
            (\<forall>e. call_transfer tk (token (hiddenTransfers s h)) (this c) (msg_sender c)
                    (amount (hiddenTransfers s h)) = Inl e \<longrightarrow>
                 claimHiddenTransfer c tk s h = Inl e) \<and>
            (\<forall>tk'. call_transfer tk (token (hiddenTransfers s h)) (this c) (msg_sender c)
                    (amount (hiddenTransfers s h)) = Inr (tk', True) \<longrightarrow>
                 (\<exists>s'. claimHiddenTransfer c tk s h = Inr (tk', s'))))"
proof -
  let ?r = "hiddenTransfers s h"
  consider (unpublished) "timestamp ?r = 0"
    | (settled) "timestamp ?r \<noteq> 0" "claimed ?r"
    | (empty) "timestamp ?r \<noteq> 0" "\<not> claimed ?r" "amount ?r = 0"
    | (escrowed) "timestamp ?r \<noteq> 0" "\<not> claimed ?r" "amount ?r \<noteq> 0"
    by blast
  then show ?thesis
  proof cases
    case unpublished
    with assms have "?r = zero_transfer" by (rule reachable_unwritten)
    then show ?thesis
      by (simp add: claimHiddenTransfer_def Let_def zero_transfer_def)
  next
    case settled
    then show ?thesis
      by (simp add: claimHiddenTransfer_def Let_def word_gt_0)
  next
    case empty
    then show ?thesis
      by (simp add: claimHiddenTransfer_def Let_def word_gt_0)
  next
    case escrowed
    from assms escrowed(1,2) have "unat (totalClaimed s) + 1 < 2 ^ 256"
      by (rule reachable_claim_no_overflow)
    note unfold = claim_unfold [OF escrowed this, of c tk]
    from call_transfer_result [of tk "token ?r" "this c" "msg_sender c" "amount ?r"]
    consider (revert) e where
        "call_transfer tk (token ?r) (this c) (msg_sender c) (amount ?r) = Inl e"
        "e = CallToNonContract \<or> e = InsufficientBalance \<or> e = Panic"
      | (paid) tk1 where
        "call_transfer tk (token ?r) (this c) (msg_sender c) (amount ?r) = Inr (tk1, True)"
      by blast
    then show ?thesis
    proof cases
      case revert
      with escrowed unfold show ?thesis by auto
    next
      case paid
      with escrowed unfold show ?thesis by simp
    qed
  qed
qed

theorem claim_outcomes_witness:
  "reachable deployed \<and> reachable (snd published) \<and> reachable (snd claimed_by_bob) \<and>
   reachable (snd published_full_fee) \<and> reachable (snd drained) \<and>
   claimHiddenTransfer (call_by bob 3000) tokens0 deployed 7 = Inl NotFound \<and>
   claimHiddenTransfer (call_by bob 4000) (fst claimed_by_bob) (snd claimed_by_bob) 7
     = Inl AlreadyClaimed \<and>
   claimHiddenTransfer (call_by bob 3000) (fst published_full_fee) (snd published_full_fee) 9
     = Inl NoAmount \<and>
   claimHiddenTransfer (call_by bob 3000) (fst drained) (snd drained) 7
     = Inl InsufficientBalance \<and>
   (\<exists>s'. claimHiddenTransfer (call_by bob 3000) (fst published) (snd published) 7
            = Inr (fst claimed_by_bob, s'))"
proof -
  have r0: "hiddenTransfers deployed 7 = zero_transfer"
    by (simp add: scenario_defs)
  have nopay: "call_transfer (fst drained) usdc escrow bob 9950 = Inl InsufficientBalance"
    by (simp add: drained_def published_def scenario_defs eval_defs)
  have pay: "call_transfer (fst published) usdc escrow bob 9950
      = Inr (fst claimed_by_bob, True)"
    by (simp add: claimed_by_bob_def published_def scenario_defs eval_defs)
  from claim_outcomes [OF reachable_deployed, where h = 7 and c = "call_by bob 3000"
      and tk = tokens0]
    claim_outcomes [OF reachable_claimed_by_bob, where h = 7 and c = "call_by bob 4000"
      and tk = "fst claimed_by_bob"]
    claim_outcomes [OF reachable_published_full_fee, where h = 9 and c = "call_by bob 3000"
      and tk = "fst published_full_fee"]
    claim_outcomes [OF reachable_drained, where h = 7 and c = "call_by bob 3000"
      and tk = "fst drained"]
    claim_outcomes [OF reachable_published, where h = 7 and c = "call_by bob 3000"
      and tk = "fst published"]
    r0 nopay pay reachable_deployed reachable_published reachable_claimed_by_bob
    reachable_published_full_fee reachable_drained
  show ?thesis
    by (simp add: published_record drained_record claimed_by_bob_record
          published_full_fee_record zero_transfer_def)
qed

text \<open>
  C7 as stated fails: a claim of an escrowed, unclaimed identifier fails for reasons other
  than \<open>NotFound\<close> and \<open>AlreadyClaimed\<close>. Identifier 9, published at a fee of 10000
  basis points, holds the amount 0 and its claim reverts with \<open>NoAmount\<close>; and the claim
  of identifier 7 after the owner's emergency withdrawal reverts in the token.
\<close>

theorem claim_other_failures:
  "reachable (snd published_full_fee) \<and>
   timestamp (hiddenTransfers (snd published_full_fee) 9) \<noteq> 0 \<and>
   \<not> claimed (hiddenTransfers (snd published_full_fee) 9) \<and>
   claimHiddenTransfer (call_by bob 3000) (fst published_full_fee) (snd published_full_fee) 9
     = Inl NoAmount \<and>
   reachable (snd drained) \<and>
   timestamp (hiddenTransfers (snd drained) 7) \<noteq> 0 \<and>
   \<not> claimed (hiddenTransfers (snd drained) 7) \<and>
   claimHiddenTransfer (call_by alice 4000) (fst drained) (snd drained) 7
     = Inl InsufficientBalance"
  using reachable_published_full_fee reachable_drained
  by (simp add: published_full_fee_record drained_record claimHiddenTransfer_def Let_def
        checked_add_def)
     (simp add: drained_def published_def scenario_defs eval_defs)

text \<open>
  C9. Of all calls only a claim changes \<open>totalClaimed\<close>, by one. A successful cancel
  sets the record's \<open>claimed\<close> flag and leaves \<open>totalClaimed\<close> and \<open>totalTransfers\<close>
  as they were, so that \<open>getStats\<close> reports the pending count
  \<open>totalTransfers - totalClaimed\<close> of before the cancel: the cancelled transfer is
  still counted in it, and the count is greater than the number of records that are
  escrowed and unclaimed.
\<close>

theorem cancel_counts_as_pending:
  assumes "reachable s" and "valid_ctx c" and "exec c tk s x = Inr (tk', s')"
  shows "(totalClaimed s' = totalClaimed s
          \<or> (\<exists>g. x = Claim g) \<and> unat (totalClaimed s') = unat (totalClaimed s) + 1) \<and>
         (x = Cancel h \<longrightarrow>
            claimed (hiddenTransfers s' h) \<and>
            totalClaimed s' = totalClaimed s \<and> totalTransfers s' = totalTransfers s \<and>
            getStats s' = Inr (totalTransfers s, totalClaimed s,
                               totalTransfers s - totalClaimed s) \<and>
            card {g. timestamp (hiddenTransfers s' g) \<noteq> 0 \<and> \<not> claimed (hiddenTransfers s' g)}
              < unat (totalTransfers s - totalClaimed s))"
proof (intro conjI impI)
  show "totalClaimed s' = totalClaimed s
          \<or> (\<exists>g. x = Claim g) \<and> unat (totalClaimed s') = unat (totalClaimed s) + 1"
    using assms(3) by (cases x) (auto simp: exec_Inr unat_plus_one)
next
  assume x: "x = Cancel h"
  let ?U = "{g. timestamp (hiddenTransfers s g) \<noteq> 0 \<and> \<not> claimed (hiddenTransfers s g)}"
  let ?U' = "{g. timestamp (hiddenTransfers s' g) \<noteq> 0 \<and> \<not> claimed (hiddenTransfers s' g)}"
  from assms(3) x have snd: "sender (hiddenTransfers s h) = msg_sender c"
    and unclaimed: "\<not> claimed (hiddenTransfers s h)"
    and s': "s' = s\<lparr>hiddenTransfers := (hiddenTransfers s)
                 (h := (hiddenTransfers s h)\<lparr>claimed := True\<rparr>)\<rparr>"
    by (simp_all add: cancel_Inr)
  have ts: "timestamp (hiddenTransfers s h) \<noteq> 0"
  proof
    assume "timestamp (hiddenTransfers s h) = 0"
    with assms(1) have "hiddenTransfers s h = zero_transfer" by (rule reachable_unwritten)
    with snd assms(2) show False by (simp add: zero_transfer_def valid_ctx_def)
  qed
  from reachable_counters [OF assms(1)]
  have fin: "finite {g. timestamp (hiddenTransfers s g) \<noteq> 0}"
    and le: "unat (totalClaimed s) + card ?U \<le> unat (totalTransfers s)" by simp_all
  have finU: "finite ?U" by (rule finite_subset [OF _ fin]) auto
  have mem: "h \<in> ?U" using ts unclaimed by simp
  have U': "?U' = ?U - {h}" using s' by auto
  from finU mem have "card (?U - {h}) < card ?U" by (rule card_Diff1_less)
  with U' le have lt: "unat (totalClaimed s) + card ?U' < unat (totalTransfers s)" by simp
  then have cle: "totalClaimed s \<le> totalTransfers s" by (simp add: word_le_nat_alt)
  then have "unat (totalTransfers s - totalClaimed s)
      = unat (totalTransfers s) - unat (totalClaimed s)" by (rule unat_sub)
  with lt show "card ?U' < unat (totalTransfers s - totalClaimed s)" by simp
  from cle show "getStats s' = Inr (totalTransfers s, totalClaimed s,
       totalTransfers s - totalClaimed s)"
    by (simp add: getStats_def checked_sub_def s' word_le_nat_alt)
  from s' show "claimed (hiddenTransfers s' h)" "totalClaimed s' = totalClaimed s"
    "totalTransfers s' = totalTransfers s" by simp_all
qed

theorem cancel_counts_as_pending_witness:
  "reachable (snd published) \<and> valid_ctx (call_by alice 606800) \<and>
   valid_ctx (call_by bob 3000) \<and>
   exec (call_by alice 606800) (fst published) (snd published) (Cancel 7) = Inr cancelled \<and>
   exec (call_by bob 3000) (fst published) (snd published) (Claim 7) = Inr claimed_by_bob \<and>
   claimed (hiddenTransfers (snd cancelled) 7) \<and>
   totalClaimed (snd published) = 0 \<and>
   totalClaimed (snd cancelled) = 0 \<and>
   unat (totalClaimed (snd claimed_by_bob)) = 1 \<and>
   getStats (snd cancelled) = Inr (1, 0, 1) \<and>
   card {g. timestamp (hiddenTransfers (snd cancelled) g) \<noteq> 0 \<and>
            \<not> claimed (hiddenTransfers (snd cancelled) g)} < 1"
proof -
  have v: "valid_ctx (call_by alice 606800)" "valid_ctx (call_by bob 3000)"
    by (simp_all add: valid_ctx_def scenario_defs)
  have c1: "totalClaimed (snd claimed_by_bob) = 1"
    by (simp add: claimed_by_bob_def published_def scenario_defs eval_defs)
  from cancel_counts_as_pending [OF reachable_published v(1), where x = "Cancel 7"
      and tk = "fst published" and h = 7 and tk' = "fst cancelled" and s' = "snd cancelled"]
    cancel_counts_as_pending [OF reachable_published v(2), where x = "Claim 7"
      and tk = "fst published" and h = 7 and tk' = "fst claimed_by_bob"
      and s' = "snd claimed_by_bob"]
    reachable_published cancelled_ok claimed_by_bob_ok published_counters v c1
  show ?thesis by simp
qed

text \<open>
  C10. Claim and cancel change nothing of the escrow records but the \<open>claimed\<close> flag of
  the record they are called on: its sender, token, amount and timestamp stay as they
  were, and so does every record under another identifier. Publish, too, leaves the
  records under every other identifier as they were.
\<close>

theorem escrow_record_frame:
  "(claimHiddenTransfer c tk s h = Inr (tk', s') \<or> cancelHiddenTransfer c tk s h = Inr (tk', s')
      \<longrightarrow> sender (hiddenTransfers s' h) = sender (hiddenTransfers s h) \<and>
          token (hiddenTransfers s' h) = token (hiddenTransfers s h) \<and>
          amount (hiddenTransfers s' h) = amount (hiddenTransfers s h) \<and>
          timestamp (hiddenTransfers s' h) = timestamp (hiddenTransfers s h) \<and>
          (\<forall>h'. h' \<noteq> h \<longrightarrow> hiddenTransfers s' h' = hiddenTransfers s h')) \<and>
   (publishHiddenTransfer c tk s h tkn amt = Inr (tk', s')
      \<longrightarrow> (\<forall>h'. h' \<noteq> h \<longrightarrow> hiddenTransfers s' h' = hiddenTransfers s h'))"
  by (auto simp: claim_Inr cancel_Inr publish_Inr)

theorem escrow_record_frame_witness:
  "claimHiddenTransfer (call_by bob 3000) (fst published) (snd published) 7 = Inr claimed_by_bob \<and>
   cancelHiddenTransfer (call_by alice 606800) (fst published) (snd published) 7 = Inr cancelled \<and>
   publishHiddenTransfer (call_by alice 2000) tokens0 deployed 7 usdc 10000 = Inr published \<and>
   sender (hiddenTransfers (snd claimed_by_bob) 7) = alice \<and>
   token (hiddenTransfers (snd claimed_by_bob) 7) = usdc \<and>
   amount (hiddenTransfers (snd claimed_by_bob) 7) = 9950 \<and>
   timestamp (hiddenTransfers (snd claimed_by_bob) 7) = 2000 \<and>
   sender (hiddenTransfers (snd cancelled) 7) = alice \<and>
   token (hiddenTransfers (snd cancelled) 7) = usdc \<and>
   amount (hiddenTransfers (snd cancelled) 7) = 9950 \<and>
   timestamp (hiddenTransfers (snd cancelled) 7) = 2000 \<and>
   hiddenTransfers (snd claimed_by_bob) 8 = hiddenTransfers (snd published) 8 \<and>
   hiddenTransfers (snd cancelled) 8 = hiddenTransfers (snd published) 8 \<and>
   hiddenTransfers (snd published) 8 = hiddenTransfers deployed 8"
  using
    escrow_record_frame [where c = "call_by bob 3000" and tk = "fst published"
      and s = "snd published" and h = 7 and tk' = "fst claimed_by_bob"
      and s' = "snd claimed_by_bob" and tkn = 0 and amt = 0]
    escrow_record_frame [where c = "call_by alice 606800" and tk = "fst published"
      and s = "snd published" and h = 7 and tk' = "fst cancelled"
      and s' = "snd cancelled" and tkn = 0 and amt = 0]
    escrow_record_frame [where c = "call_by alice 2000" and tk = tokens0
      and s = deployed and h = 7 and tk' = "fst published"
      and s' = "snd published" and tkn = usdc and amt = 10000]
    published_ok claimed_by_bob_ok cancelled_ok published_record
  by simp

end
